theory Spec2Isabelle
  imports Main
begin


section \<open>Workflow state (backend/config.py, backend/state_manager.py)\<close>

datatype Phase = PLANNING | PLAN_CRITIQUE | WRITING | WRITE_CRITIQUE | COMPLETE

text \<open>
  The exceptions that the modelled code can meet. \<open>OSError\<close> stands for any exception
  of a file operation, \<open>KeyError\<close> is raised by the tool registry, \<open>ConnectionError\<close>
  stands for any exception of a send on a WebSocket.
\<close>

datatype error = StateConflictError | PersistenceError | OSError | KeyError | ConnectionError

text \<open>
  Modelled from the spec: the class \<open>NovelState\<close> of \<open>backend/state_manager.py\<close>, which
  is not among the sources. The fields are the ones the tool handlers read and write,
  with the types their use fixes: the two chapter collections are lists (the handlers
  test membership and \<open>append\<close>), the iteration counters are a dict from chapter
  number to count, \<open>plan_files_created\<close> is a dict from relative path to a flag.
\<close>

record NovelState =
  phase :: Phase
  current_chapter :: int
  total_chapters :: int
  chapters_completed :: "int list"
  chapters_approved :: "int list"
  chapter_critique_iterations :: "int \<rightharpoonup> int"
  plan_files_created :: "string \<rightharpoonup> bool"

text \<open>\<open>AgentConfig\<close> of \<open>backend/config.py\<close>; both fields are declared with \<open>ge=1, le=10\<close>.\<close>

record AgentConfig =
  max_plan_critique_iterations :: int
  max_write_critique_iterations :: int

definition valid_agent_config :: "AgentConfig \<Rightarrow> bool" where
  "valid_agent_config cfg =
     (1 \<le> max_plan_critique_iterations cfg \<and> max_plan_critique_iterations cfg \<le> 10 \<and>
      1 \<le> max_write_critique_iterations cfg \<and> max_write_critique_iterations cfg \<le> 10)"

text \<open>The table of allowed edges of the state machine, as the spec lists it.\<close>

fun allowed_edge :: "Phase \<Rightarrow> Phase \<Rightarrow> bool" where
  "allowed_edge PLANNING PLAN_CRITIQUE = True"
| "allowed_edge PLAN_CRITIQUE WRITING = True"
| "allowed_edge PLAN_CRITIQUE PLANNING = True"
| "allowed_edge WRITING WRITE_CRITIQUE = True"
| "allowed_edge WRITE_CRITIQUE WRITING = True"
| "allowed_edge WRITE_CRITIQUE COMPLETE = True"
| "allowed_edge _ _ = False"

text \<open>
  Modelled from the spec: \<open>update_phase\<close> of \<open>backend/state_manager.py\<close>, which is not
  among the sources. The spec has a phase change validated against the table before
  anything is mutated: an edge outside the table raises \<open>StateConflictError\<close> and leaves
  the state as it was, an edge of the table sets \<open>phase\<close>. \<open>Inl\<close> is the raise; the
  caller then still holds the state it passed.
\<close>

definition update_phase :: "NovelState \<Rightarrow> Phase \<Rightarrow> error + NovelState" where
  "update_phase state new_phase =
     (if allowed_edge (phase state) new_phase
      then Inr (state\<lparr>phase := new_phase\<rparr>)
      else Inl StateConflictError)"

text \<open>
  Modelled from the spec: \<open>increment_chapter\<close> of \<open>backend/state_manager.py\<close>, which is
  not among the sources (\<open>current_chapter += 1\<close> in the spec's table).
\<close>

definition increment_chapter :: "NovelState \<Rightarrow> NovelState" where
  "increment_chapter state = state\<lparr>current_chapter := current_chapter state + 1\<rparr>"

definition iterations_get :: "NovelState \<Rightarrow> int \<Rightarrow> int" where
  "iterations_get state chapter_number =
     (case chapter_critique_iterations state chapter_number of None \<Rightarrow> 0 | Some v \<Rightarrow> v)"

section \<open>The world around a tool handler\<close>

text \<open>
  What a handler reads and writes besides the state object it is given: the module
  variable \<open>_active_project_folder\<close>, the files (a path is the string the code builds;
  directories are not tracked), and the persisted snapshot of the state. Whether a file
  operation raises is a fact of the world: \<open>mkdir_fails\<close> for \<open>os.makedirs\<close> on a
  directory, \<open>open_fails\<close> for \<open>open\<close> on a path, \<open>save_fails\<close> for the write of the
  snapshot. A failing \<open>open\<close> changes nothing. \<open>now\<close> is the formatted current time, and
  \<open>relpath\<close> is \<open>os.path.relpath\<close>, a library function that is not modelled.
\<close>

record world =
  active_project_folder :: "string option"
  files :: "string \<rightharpoonup> string"
  mkdir_fails :: "string \<Rightarrow> bool"
  open_fails :: "string \<Rightarrow> bool"
  saved_state :: "NovelState option"
  save_fails :: bool
  now :: string
  relpath :: "string \<Rightarrow> string \<Rightarrow> string"

definition get_active_project_folder :: "world \<Rightarrow> string option" where
  "get_active_project_folder w = active_project_folder w"

text \<open>
  Modelled from the spec: \<open>save_state\<close> of \<open>backend/state_manager.py\<close>, which is not
  among the sources. The spec has the persisted snapshot rewritten wholesale after a
  mutation, as a step of its own after the in-memory mutation; a failed write raises
  \<open>PersistenceError\<close> and leaves the snapshot as it was.
\<close>

definition save_state :: "NovelState \<Rightarrow> world \<Rightarrow> error + world" where
  "save_state state w =
     (if save_fails w then Inl PersistenceError else Inr (w\<lparr>saved_state := Some state\<rparr>))"

definition path_exists :: "world \<Rightarrow> string \<Rightarrow> bool" where
  "path_exists w path = (path \<in> dom (files w))"

definition write_text :: "world \<Rightarrow> string \<Rightarrow> string \<Rightarrow> world" where
  "write_text w path content = w\<lparr>files := (files w)(path \<mapsto> content)\<rparr>"

definition append_text :: "world \<Rightarrow> string \<Rightarrow> string \<Rightarrow> world" where
  "append_text w path content =
     w\<lparr>files := (files w)(path \<mapsto> (case files w path of None \<Rightarrow> content | Some old \<Rightarrow> old @ content))\<rparr>"

subsection \<open>Paths and number formatting\<close>

definition ends_with :: "string \<Rightarrow> string \<Rightarrow> bool" where
  "ends_with s suffix = (length suffix \<le> length s \<and> drop (length s - length suffix) s = suffix)"

text \<open>\<open>os.path.join\<close> and \<open>os.path.dirname\<close> of two POSIX paths.\<close>

definition path_join :: "string \<Rightarrow> string \<Rightarrow> string" where
  "path_join a b =
     (if b \<noteq> [] \<and> hd b = CHR ''/'' then b
      else if a = [] \<or> last a = CHR ''/'' then a @ b
      else a @ ''/'' @ b)"

definition dirname :: "string \<Rightarrow> string" where
  "dirname p =
     (let head = rev (dropWhile (\<lambda>c. c \<noteq> CHR ''/'') (rev p))
      in if head \<noteq> [] \<and> head \<noteq> replicate (length head) (CHR ''/'')
         then rev (dropWhile (\<lambda>c. c = CHR ''/'') (rev head))
         else head)"

definition digit_char :: "nat \<Rightarrow> char" where
  "digit_char d = ''0123456789'' ! d"

fun str_nat :: "nat \<Rightarrow> string" where
  "str_nat n = (if n < 10 then [digit_char n] else str_nat (n div 10) @ [digit_char (n mod 10)])"

declare str_nat.simps [simp del]

text \<open>\<open>str(n)\<close> and the format \<open>{n:02d}\<close> of a Python integer.\<close>

definition str_int :: "int \<Rightarrow> string" where
  "str_int n = (if n < 0 then CHR ''-'' # str_nat (nat (- n)) else str_nat (nat n))"

definition fmt02 :: "int \<Rightarrow> string" where
  "fmt02 n =
     (if n < 0 then CHR ''-'' # str_nat (nat (- n))
      else if n < 10 then CHR ''0'' # str_nat (nat n)
      else str_nat (nat n))"

definition chapter_filename :: "int \<Rightarrow> string" where
  "chapter_filename chapter_number = ''chapter_'' @ fmt02 chapter_number @ ''.md''"

section \<open>Tool results (backend/tools)\<close>

text \<open>
  A handler returns a dict. The model keeps the keys that steer the workflow:
  \<open>success\<close>, \<open>auto_approve\<close> (absent in the dict is \<open>False\<close> here) and \<open>transition\<close>
  with the target phase and the chapter number and iteration of its data. \<open>reported\<close>
  is the exception whose text a handler puts into the message of a failure after
  catching it. The wording of messages and the informational entries are left out.
\<close>

record Transition =
  to_phase :: Phase
  data_chapter_number :: int
  data_iteration :: "int option"

record ToolResult =
  success :: bool
  auto_approve :: bool
  transition :: "Transition option"
  reported :: "error option"

definition failure :: ToolResult where
  "failure = \<lparr>success = False, auto_approve = False, transition = None, reported = None\<rparr>"

definition failure_of :: "error \<Rightarrow> ToolResult" where
  "failure_of e = \<lparr>success = False, auto_approve = False, transition = None, reported = Some e\<rparr>"

definition succeeded :: ToolResult where
  "succeeded = \<lparr>success = True, auto_approve = False, transition = None, reported = None\<rparr>"

definition succeeded_to :: "Phase \<Rightarrow> int \<Rightarrow> int option \<Rightarrow> ToolResult" where
  "succeeded_to ph chapter_number iteration =
     \<lparr>success = True, auto_approve = False,
      transition = Some \<lparr>to_phase = ph, data_chapter_number = chapter_number,
                         data_iteration = iteration\<rparr>,
      reported = None\<rparr>"

text \<open>
  The outcome of a call: what the caller gets (\<open>Inl\<close> is an exception that leaves the
  handler), the state object after the call (mutated in place, also when the call
  fails afterwards) and the world after the call.
\<close>

type_synonym outcome = "(error + ToolResult) \<times> NovelState option \<times> world"

section \<open>Project folder names (backend/tools/project.py)\<close>

text \<open>
  A Python string is a sequence of Unicode code points, so the input of
  \<open>sanitize_folder_name\<close> is a list of natural numbers. The classification of the
  code points below 128 is written out; Python's tables for the others
  (\<open>str.isspace\<close>, and the alphanumeric test behind the regular expression class
  \<open>\w\<close>) belong to the interpreter and are taken as a parameter.
\<close>

type_synonym pystr = "nat list"

record unicode_db =
  uni_alnum :: "nat \<Rightarrow> bool"
  uni_space :: "nat \<Rightarrow> bool"

definition ascii :: "string \<Rightarrow> pystr" where
  "ascii s = map of_char s"

definition is_space :: "unicode_db \<Rightarrow> nat \<Rightarrow> bool" where
  "is_space db c =
     (if c < 128 then (9 \<le> c \<and> c \<le> 13) \<or> (28 \<le> c \<and> c \<le> 32) else uni_space db c)"

definition is_word :: "unicode_db \<Rightarrow> nat \<Rightarrow> bool" where
  "is_word db c =
     (if c < 128
      then (48 \<le> c \<and> c \<le> 57) \<or> (65 \<le> c \<and> c \<le> 90) \<or> (97 \<le> c \<and> c \<le> 122) \<or> c = 95
      else uni_alnum db c)"

definition py_strip :: "(nat \<Rightarrow> bool) \<Rightarrow> pystr \<Rightarrow> pystr" where
  "py_strip P s = rev (dropWhile P (rev (dropWhile P s)))"

definition cleaned_name :: "unicode_db \<Rightarrow> pystr \<Rightarrow> pystr" where
  "cleaned_name db name =
     (let name1 = map (\<lambda>c. if c = 32 then 95 else c) (py_strip (is_space db) name);
          name2 = filter (\<lambda>c. is_word db c \<or> c = 45) name1
      in py_strip (\<lambda>c. c = 45 \<or> c = 95) name2)"

definition sanitize_folder_name :: "unicode_db \<Rightarrow> pystr \<Rightarrow> pystr" where
  "sanitize_folder_name db name =
     (let name' = cleaned_name db name
      in if name' = [] then ascii ''untitled_project'' else name')"



section \<open>Tool handlers\<close>

subsection \<open>write_file (backend/tools/writer.py)\<close>

text \<open>The file name with \<open>.md\<close> added unless it ends with it, and the path written to.\<close>

definition with_md :: "string \<Rightarrow> string" where
  "with_md filename = (if ends_with filename ''.md'' then filename else filename @ ''.md'')"

definition target_path :: "string \<Rightarrow> string \<Rightarrow> string" where
  "target_path project_folder filename = path_join project_folder (with_md filename)"

definition write_file :: "string \<Rightarrow> string \<Rightarrow> string \<Rightarrow> NovelState option \<Rightarrow> world \<Rightarrow> outcome" where
  "write_file filename content mode state w =
     (case get_active_project_folder w of
        None \<Rightarrow> (Inr failure, state, w)
      | Some project_folder \<Rightarrow>
          if project_folder = [] then (Inr failure, state, w)
          else
            let file_path = target_path project_folder filename;
                written =
                  (if mode = ''create'' then
                     (if path_exists w file_path then Inl None
                      else if mkdir_fails w (dirname file_path) then Inl (Some OSError)
                      else if open_fails w file_path then Inl (Some OSError)
                      else Inr (write_text w file_path content))
                   else if mode = ''append'' then
                     (if open_fails w file_path then Inl (Some OSError)
                      else Inr (append_text w file_path content))
                   else if mode = ''overwrite'' then
                     (if mkdir_fails w (dirname file_path) then Inl (Some OSError)
                      else if open_fails w file_path then Inl (Some OSError)
                      else Inr (write_text w file_path content))
                   else Inl None)
            in case written of
                 Inl None \<Rightarrow> (Inr failure, state, w)
               | Inl (Some e) \<Rightarrow> (Inr (failure_of e), state, w)
               | Inr w1 \<Rightarrow>
                   (case state of
                      None \<Rightarrow> (Inr succeeded, None, w1)
                    | Some s \<Rightarrow>
                        if mode = ''create'' then
                          let relative_path = relpath w file_path project_folder;
                              s1 = s\<lparr>plan_files_created := (plan_files_created s)(relative_path \<mapsto> True)\<rparr>
                          in (case save_state s1 w1 of
                                Inl e \<Rightarrow> (Inr (failure_of e), Some s1, w1)
                              | Inr w2 \<Rightarrow> (Inr succeeded, Some s1, w2))
                        else (Inr succeeded, Some s, w1)))"

subsection \<open>The writing tools (backend/tools/writing_tools.py)\<close>

definition get_chapter_context :: "int \<Rightarrow> NovelState option \<Rightarrow> world \<Rightarrow> outcome" where
  "get_chapter_context chapter_number state w =
     (case get_active_project_folder w of
        None \<Rightarrow> (Inr failure, state, w)
      | Some project_folder \<Rightarrow>
          if project_folder = [] then (Inr failure, state, w)
          else
            let outline_path = path_join (path_join project_folder ''planning'') ''outline.md''
            in if \<not> path_exists w outline_path then (Inr failure, state, w)
               else if open_fails w outline_path then (Inr (failure_of OSError), state, w)
               else
                 (case state of
                    None \<Rightarrow> (Inr succeeded, None, w)
                  | Some s \<Rightarrow>
                      let s1 = s\<lparr>current_chapter := chapter_number\<rparr>;
                          s2 = (if chapter_number \<in> dom (chapter_critique_iterations s1) then s1
                                else s1\<lparr>chapter_critique_iterations :=
                                          (chapter_critique_iterations s1)(chapter_number \<mapsto> 0)\<rparr>)
                      in (case save_state s2 w of
                            Inl e \<Rightarrow> (Inr (failure_of e), Some s2, w)
                          | Inr w1 \<Rightarrow> (Inr succeeded, Some s2, w1))))"

definition write_chapter :: "int \<Rightarrow> string \<Rightarrow> NovelState option \<Rightarrow> world \<Rightarrow> outcome" where
  "write_chapter chapter_number content state w =
     (case get_active_project_folder w of
        None \<Rightarrow> (Inr failure, state, w)
      | Some project_folder \<Rightarrow>
          if project_folder = [] then (Inr failure, state, w)
          else
            let file_path = path_join (path_join project_folder ''manuscript'')
                              (chapter_filename chapter_number)
            in if mkdir_fails w (dirname file_path) then (Inl OSError, state, w)
               else if open_fails w file_path then (Inr (failure_of OSError), state, w)
               else (Inr succeeded, state,
                     write_text w file_path
                       (''# Chapter '' @ str_int chapter_number @ ''\<newline>\<newline>'' @ content @ ''\<newline>'')))"

definition finalize_chapter :: "int \<Rightarrow> string \<Rightarrow> NovelState option \<Rightarrow> world \<Rightarrow> outcome" where
  "finalize_chapter chapter_number notes state w =
     (case get_active_project_folder w of
        None \<Rightarrow> (Inr failure, state, w)
      | Some project_folder \<Rightarrow>
          if project_folder = [] then (Inr failure, state, w)
          else
            let file_path = path_join (path_join project_folder ''manuscript'')
                              (chapter_filename chapter_number)
            in if \<not> path_exists w file_path then (Inr failure, state, w)
               else
                 (case state of
                    None \<Rightarrow> (Inr (succeeded_to WRITE_CRITIQUE chapter_number None), None, w)
                  | Some s \<Rightarrow>
                      (case update_phase s WRITE_CRITIQUE of
                         Inl e \<Rightarrow> (Inl e, Some s, w)
                       | Inr s1 \<Rightarrow>
                           let s2 = s1\<lparr>current_chapter := chapter_number\<rparr>
                           in (case save_state s2 w of
                                 Inl e \<Rightarrow> (Inl e, Some s2, w)
                               | Inr w1 \<Rightarrow>
                                   (Inr (succeeded_to WRITE_CRITIQUE chapter_number None),
                                    Some s2, w1)))))"

subsection \<open>The write critique tools (backend/tools/write_critique_tools.py)\<close>

definition critique_chapter :: "int \<Rightarrow> string \<Rightarrow> NovelState option \<Rightarrow> world \<Rightarrow> outcome" where
  "critique_chapter chapter_number critique_text state w =
     (case get_active_project_folder w of
        None \<Rightarrow> (Inr failure, state, w)
      | Some project_folder \<Rightarrow>
          if project_folder = [] then (Inr failure, state, w)
          else
            let version =
                  (case state of
                     None \<Rightarrow> 1
                   | Some s \<Rightarrow>
                       (case chapter_critique_iterations s chapter_number of
                          None \<Rightarrow> 1 | Some v \<Rightarrow> v + 1));
                state1 =
                  (case state of
                     None \<Rightarrow> None
                   | Some s \<Rightarrow>
                       Some (s\<lparr>chapter_critique_iterations :=
                                 (chapter_critique_iterations s)(chapter_number \<mapsto> version)\<rparr>));
                critique_dir = path_join project_folder ''critiques'';
                file_path = path_join critique_dir
                  (''chapter_'' @ fmt02 chapter_number @ ''_critique_v'' @ str_int version @ ''.md'')
            in if mkdir_fails w critique_dir then (Inl OSError, state1, w)
               else if open_fails w file_path then (Inr (failure_of OSError), state1, w)
               else
                 let w1 = write_text w file_path
                            (''# Chapter '' @ str_int chapter_number @ '' Critique - Version ''
                               @ str_int version @ ''\<newline>\<newline>''
                             @ ''**Date:** '' @ now w @ ''\<newline>\<newline>''
                             @ ''---\<newline>\<newline>'' @ critique_text @ ''\<newline>'')
                 in (case state1 of
                       None \<Rightarrow> (Inr succeeded, None, w1)
                     | Some s1 \<Rightarrow>
                         (case save_state s1 w1 of
                            Inl e \<Rightarrow> (Inr (failure_of e), Some s1, w1)
                          | Inr w2 \<Rightarrow> (Inr succeeded, Some s1, w2))))"

definition approve_chapter :: "int \<Rightarrow> string \<Rightarrow> NovelState option \<Rightarrow> world \<Rightarrow> outcome" where
  "approve_chapter chapter_number approval_notes state w =
     (case get_active_project_folder w of
        None \<Rightarrow> (Inr failure, state, w)
      | Some project_folder \<Rightarrow>
          if project_folder = [] then (Inr failure, state, w)
          else
            let approval_dir = path_join project_folder ''critiques'';
                file_path = path_join approval_dir
                  (''chapter_'' @ fmt02 chapter_number @ ''_approval.md'')
            in if mkdir_fails w approval_dir then (Inl OSError, state, w)
               else if open_fails w file_path then (Inr (failure_of OSError), state, w)
               else
                 let w1 = write_text w file_path
                            (''# Chapter '' @ str_int chapter_number @ '' Approval\<newline>\<newline>''
                             @ ''**Date:** '' @ now w @ ''\<newline>\<newline>''
                             @ ''**Status:** APPROVED\<newline>\<newline>''
                             @ ''---\<newline>\<newline>'' @ approval_notes @ ''\<newline>'')
                 in (case state of
                       None \<Rightarrow> (Inr (succeeded_to WRITING chapter_number None), None, w1)
                     | Some s \<Rightarrow>
                         let s1 = (if chapter_number \<in> set (chapters_completed s) then s
                                   else s\<lparr>chapters_completed := chapters_completed s @ [chapter_number]\<rparr>);
                             s2 = (if chapter_number \<in> set (chapters_approved s1) then s1
                                   else s1\<lparr>chapters_approved := chapters_approved s1 @ [chapter_number]\<rparr>)
                         in if int (length (chapters_approved s2)) \<ge> total_chapters s2 then
                              (case update_phase s2 COMPLETE of
                                 Inl e \<Rightarrow> (Inr (failure_of e), Some s2, w1)
                               | Inr s3 \<Rightarrow>
                                   (case save_state s3 w1 of
                                      Inl e \<Rightarrow> (Inr (failure_of e), Some s3, w1)
                                    | Inr w2 \<Rightarrow>
                                        (Inr (succeeded_to COMPLETE chapter_number None), Some s3, w2)))
                            else
                              let s3 = increment_chapter s2
                              in (case update_phase s3 WRITING of
                                    Inl e \<Rightarrow> (Inr (failure_of e), Some s3, w1)
                                  | Inr s4 \<Rightarrow>
                                      (case save_state s4 w1 of
                                         Inl e \<Rightarrow> (Inr (failure_of e), Some s4, w1)
                                       | Inr w2 \<Rightarrow>
                                           (Inr (succeeded_to WRITING chapter_number None),
                                            Some s4, w2)))))"

definition auto_approved :: ToolResult where
  "auto_approved = \<lparr>success = False, auto_approve = True, transition = None, reported = None\<rparr>"

definition reports_success :: "error + ToolResult \<Rightarrow> bool" where
  "reports_success r = (case r of Inl e \<Rightarrow> False | Inr res \<Rightarrow> success res)"

definition carries_auto_approve :: "error + ToolResult \<Rightarrow> bool" where
  "carries_auto_approve r = (case r of Inl e \<Rightarrow> False | Inr res \<Rightarrow> auto_approve res)"

text \<open>
  The local \<open>max_iterations\<close> of \<open>RequestRevisionTool.execute\<close>, set there by
  \<open>max_iterations = 2  # Default, should come from config\<close>.
\<close>

definition max_iterations :: int where
  "max_iterations = 2"

definition request_revision :: "int \<Rightarrow> string \<Rightarrow> NovelState option \<Rightarrow> world \<Rightarrow> outcome" where
  "request_revision chapter_number revision_notes state w =
     (case get_active_project_folder w of
        None \<Rightarrow> (Inr failure, state, w)
      | Some project_folder \<Rightarrow>
          if project_folder = [] then (Inr failure, state, w)
          else
            let current_iterations =
                  (case state of None \<Rightarrow> 0 | Some s \<Rightarrow> iterations_get s chapter_number)
            in if state \<noteq> None \<and> current_iterations \<ge> max_iterations
               then (Inr auto_approved, state, w)
               else
                 let revision_dir = path_join project_folder ''critiques'';
                     version = (case state of None \<Rightarrow> 0 | Some s \<Rightarrow> iterations_get s chapter_number);
                     file_path = path_join revision_dir
                       (''chapter_'' @ fmt02 chapter_number @ ''_revision_request_v''
                          @ str_int version @ ''.md'')
                 in if mkdir_fails w revision_dir then (Inl OSError, state, w)
                    else if open_fails w file_path then (Inr (failure_of OSError), state, w)
                    else
                      let w1 = write_text w file_path
                                 (''# Chapter '' @ str_int chapter_number
                                    @ '' Revision Request - Version '' @ str_int version
                                    @ ''\<newline>\<newline>''
                                  @ ''**Date:** '' @ now w @ ''\<newline>\<newline>''
                                  @ ''**Status:** REVISION REQUESTED\<newline>\<newline>''
                                  @ ''---\<newline>\<newline>'' @ revision_notes @ ''\<newline>'')
                      in (case state of
                            None \<Rightarrow> (Inr (succeeded_to WRITING chapter_number (Some version)), None, w1)
                          | Some s \<Rightarrow>
                              (case update_phase s WRITING of
                                 Inl e \<Rightarrow> (Inr (failure_of e), Some s, w1)
                               | Inr s1 \<Rightarrow>
                                   (case save_state s1 w1 of
                                      Inl e \<Rightarrow> (Inr (failure_of e), Some s1, w1)
                                    | Inr w2 \<Rightarrow>
                                        (Inr (succeeded_to WRITING chapter_number (Some version)),
                                         Some s1, w2)))))"

subsection \<open>Dispatch (backend/tools/base_tool.py)\<close>

text \<open>
  A call names a tool and carries its arguments. The handlers of the sources that are
  left out (\<open>load_approved_plan\<close>, \<open>review_previous_writing\<close>, \<open>load_chapter_for_review\<close>,
  \<open>load_context_for_critique\<close>, \<open>create_project\<close>) only read files or create
  directories: none of them reads or writes the state object.
\<close>

datatype tool_call =
    WriteFile string string string
  | GetChapterContext int
  | WriteChapter int string
  | FinalizeChapter int string
  | CritiqueChapter int string
  | ApproveChapter int string
  | RequestRevision int string

fun tool_name :: "tool_call \<Rightarrow> string" where
  "tool_name (WriteFile _ _ _) = ''write_file''"
| "tool_name (GetChapterContext _) = ''get_chapter_context''"
| "tool_name (WriteChapter _ _) = ''write_chapter''"
| "tool_name (FinalizeChapter _ _) = ''finalize_chapter''"
| "tool_name (CritiqueChapter _ _) = ''critique_chapter''"
| "tool_name (ApproveChapter _ _) = ''approve_chapter''"
| "tool_name (RequestRevision _ _) = ''request_revision''"

fun execute :: "tool_call \<Rightarrow> NovelState option \<Rightarrow> world \<Rightarrow> outcome" where
  "execute (WriteFile filename content mode) state w = write_file filename content mode state w"
| "execute (GetChapterContext n) state w = get_chapter_context n state w"
| "execute (WriteChapter n content) state w = write_chapter n content state w"
| "execute (FinalizeChapter n notes) state w = finalize_chapter n notes state w"
| "execute (CritiqueChapter n critique_text) state w = critique_chapter n critique_text state w"
| "execute (ApproveChapter n notes) state w = approve_chapter n notes state w"
| "execute (RequestRevision n notes) state w = request_revision n notes state w"

text \<open>
  \<open>ToolRegistry.execute\<close>: the registry holds the names an agent registered; a name
  that is not registered raises \<open>KeyError\<close> before any handler runs.
\<close>

definition registry_execute :: "string list \<Rightarrow> tool_call \<Rightarrow> NovelState option \<Rightarrow> world \<Rightarrow> outcome" where
  "registry_execute registry call state w =
     (if tool_name call \<in> set registry then execute call state w else (Inl KeyError, state, w))"

text \<open>A sequence of calls on the same state object, each result kept.\<close>

fun execute_all :: "tool_call list \<Rightarrow> NovelState option \<Rightarrow> world \<Rightarrow> (error + ToolResult) list \<times> NovelState option \<times> world" where
  "execute_all [] state w = ([], state, w)"
| "execute_all (c # cs) state w =
     (case execute c state w of
        (r, state1, w1) \<Rightarrow>
          (case execute_all cs state1 w1 of (rs, state2, w2) \<Rightarrow> (r # rs, state2, w2)))"



subsection \<open>The effect of a call on the state and the snapshot\<close>

text \<open>
  What a call on a state may do, as one predicate on its outcome: the state object
  stays, approved chapters that were among the completed ones still are, the phase
  moves along an allowed edge or not at all, the snapshot is the one before or the
  state after the call, a failed snapshot write leaves the snapshot and is not reported
  as a success once the state has changed, and a reported success with a changed state
  has the snapshot equal to the state.
\<close>

definition handler_effect :: "NovelState \<Rightarrow> world \<Rightarrow> outcome \<Rightarrow> bool" where
  "handler_effect s w out =
     (case out of (r, state', w') \<Rightarrow>
        (\<exists>s'. state' = Some s' \<and>
           (set (chapters_approved s) \<subseteq> set (chapters_completed s) \<longrightarrow>
              set (chapters_approved s') \<subseteq> set (chapters_completed s')) \<and>
           (phase s' = phase s \<or> allowed_edge (phase s) (phase s')) \<and>
           (saved_state w' = saved_state w \<or> saved_state w' = Some s') \<and>
           (save_fails w \<longrightarrow> saved_state w' = saved_state w \<and> (s' \<noteq> s \<longrightarrow> \<not> reports_success r)) \<and>
           (\<not> save_fails w \<and> reports_success r \<and> s' \<noteq> s \<longrightarrow> saved_state w' = Some s')))"

subsection \<open>A concrete state and world\<close>

text \<open>
  A project of three chapters in the write critique phase of its first chapter, whose
  draft is on disk; no file operation fails. The properties below are evaluated on them.
\<close>

definition example_state :: NovelState where
  "example_state =
     \<lparr>phase = WRITE_CRITIQUE, current_chapter = 1, total_chapters = 3,
      chapters_completed = [], chapters_approved = [],
      chapter_critique_iterations = Map.empty, plan_files_created = Map.empty\<rparr>"

definition example_world :: world where
  "example_world =
     \<lparr>active_project_folder = Some ''output/my_novel'',
      files = [''output/my_novel/manuscript/chapter_01.md'' \<mapsto> ''# Chapter 1''],
      mkdir_fails = (\<lambda>path. False), open_fails = (\<lambda>path. False),
      saved_state = Some example_state, save_fails = False,
      now = ''2025-01-01 12:00:00'',
      relpath = (\<lambda>path start. drop (length start + 1) path)\<rparr>"

section \<open>The WebSocket manager (backend/websocket_manager.py)\<close>

text \<open>
  \<open>connections\<close> maps a project id to its set of connections. A Python set has no
  duplicates and is iterated in an order of its own; here it is a list without
  duplicates, iterated from the front, and a statement about every such list is a
  statement about every order. \<open>delivered\<close> is the trace of the sends that went
  through, oldest first. Which connection raises on a send is a parameter (\<open>fails\<close>),
  as is the time stamp a message gets. A message is a dict of strings.

  The second component of a result is the manager after the call; the first is the
  exception that left the method, \<open>None\<close> when it returned.
\<close>

type_synonym message = "string \<rightharpoonup> string"

record 'w manager =
  connections :: "string \<rightharpoonup> 'w list"
  delivered :: "('w \<times> message) list"

definition subscribers :: "'w manager \<Rightarrow> string \<Rightarrow> 'w set" where
  "subscribers m project_id = (case connections m project_id of None \<Rightarrow> {} | Some subs \<Rightarrow> set subs)"

definition send_to_websocket :: "('w \<Rightarrow> bool) \<Rightarrow> 'w \<Rightarrow> message \<Rightarrow> 'w manager \<Rightarrow> error + 'w manager" where
  "send_to_websocket fails websocket msg m =
     (if fails websocket then Inl ConnectionError
      else Inr (m\<lparr>delivered := delivered m @ [(websocket, msg)]\<rparr>))"

definition connect :: "('w \<Rightarrow> bool) \<Rightarrow> string \<Rightarrow> string \<Rightarrow> 'w \<Rightarrow> 'w manager \<Rightarrow> error option \<times> 'w manager" where
  "connect fails timestamp project_id websocket m =
     (let subs = (case connections m project_id of None \<Rightarrow> [] | Some xs \<Rightarrow> xs);
          subs' = (if websocket \<in> set subs then subs else subs @ [websocket]);
          m1 = m\<lparr>connections := (connections m)(project_id \<mapsto> subs')\<rparr>
      in case send_to_websocket fails websocket
                [''type'' \<mapsto> ''connected'', ''project_id'' \<mapsto> project_id, ''timestamp'' \<mapsto> timestamp] m1 of
           Inl e \<Rightarrow> (Some e, m1)
         | Inr m2 \<Rightarrow> (None, m2))"

definition disconnect :: "string \<Rightarrow> 'w \<Rightarrow> 'w manager \<Rightarrow> 'w manager" where
  "disconnect project_id websocket m =
     (case connections m project_id of
        None \<Rightarrow> m
      | Some subs \<Rightarrow>
          let subs' = removeAll websocket subs
          in if subs' = [] then m\<lparr>connections := (connections m)(project_id := None)\<rparr>
             else m\<lparr>connections := (connections m)(project_id \<mapsto> subs')\<rparr>)"

text \<open>The loop of \<open>broadcast\<close> over the copy of the set, with its \<open>try\<close> and \<open>except\<close>.\<close>

fun send_all :: "('w \<Rightarrow> bool) \<Rightarrow> string \<Rightarrow> message \<Rightarrow> 'w list \<Rightarrow> 'w manager \<Rightarrow> 'w manager" where
  "send_all fails project_id msg [] m = m"
| "send_all fails project_id msg (websocket # rest) m =
     (case send_to_websocket fails websocket msg m of
        Inl e \<Rightarrow> send_all fails project_id msg rest (disconnect project_id websocket m)
      | Inr m1 \<Rightarrow> send_all fails project_id msg rest m1)"

definition stamped :: "string \<Rightarrow> message \<Rightarrow> message" where
  "stamped timestamp msg = (if ''timestamp'' \<in> dom msg then msg else msg(''timestamp'' \<mapsto> timestamp))"

definition broadcast :: "('w \<Rightarrow> bool) \<Rightarrow> string \<Rightarrow> string \<Rightarrow> message \<Rightarrow> 'w manager \<Rightarrow> error option \<times> 'w manager" where
  "broadcast fails timestamp project_id msg m =
     (case connections m project_id of
        None \<Rightarrow> (None, m)
      | Some subs \<Rightarrow>
          let msg' = stamped timestamp msg;
              snapshot = subs
          in (None, send_all fails project_id msg' snapshot m))"



section \<open>Properties of the WebSocket manager\<close>

lemma removeAll_eq_Nil: "removeAll x xs = [] \<longleftrightarrow> set xs \<subseteq> {x}"
  by (induction xs) auto

lemma delivered_disconnect: "delivered (disconnect p ws m) = delivered m"
  by (simp add: disconnect_def Let_def split: option.splits)

lemma subscribers_disconnect:
  "subscribers (disconnect p ws m) q = (if q = p then subscribers m p - {ws} else subscribers m q)"
  by (auto simp: disconnect_def subscribers_def Let_def removeAll_eq_Nil split: option.splits)

lemma connections_disconnect_other:
  "q \<noteq> p \<Longrightarrow> connections (disconnect p ws m) q = connections m q"
  by (simp add: disconnect_def Let_def split: option.splits)

text \<open>
  Whatever fails, the loop sends the message to every connection of the copy that
  does not fail, in the order of the copy: a connection removed from the live set
  during the loop does not change what the loop visits.
\<close>

lemma send_all_delivered:
  "delivered (send_all fails p msg xs m)
     = delivered m @ map (\<lambda>ws. (ws, msg)) (filter (\<lambda>ws. \<not> fails ws) xs)"
  by (induction xs arbitrary: m) (simp_all add: send_to_websocket_def delivered_disconnect)

lemma send_all_subscribers:
  "subscribers (send_all fails p msg xs m) p = subscribers m p - {ws \<in> set xs. fails ws}"
proof (induction xs arbitrary: m)
  case Nil
  then show ?case by simp
next
  case (Cons x xs)
  show ?case
  proof (cases "fails x")
    case True
    then show ?thesis
      using Cons.IH [of "disconnect p x m"]
      by (auto simp: send_to_websocket_def subscribers_disconnect)
  next
    case False
    then show ?thesis
      using Cons.IH [of "m\<lparr>delivered := delivered m @ [(x, msg)]\<rparr>"]
      by (auto simp: send_to_websocket_def subscribers_def)
  qed
qed

lemma send_all_connections_other:
  "q \<noteq> p \<Longrightarrow> connections (send_all fails p msg xs m) q = connections m q"
  by (induction xs arbitrary: m) (simp_all add: send_to_websocket_def connections_disconnect_other)

lemma filter_all_but_one:
  assumes "fails bad" "\<forall>ws\<in>set subs. ws \<noteq> bad \<longrightarrow> \<not> fails ws"
  shows "filter (\<lambda>ws. \<not> fails ws) subs = removeAll bad subs"
  using assms by (induction subs) auto

text \<open>
  Claim C6. A project has the subscribers \<open>subs\<close> (a set: no duplicates), and exactly
  one of them, \<open>bad\<close>, raises on a send. Then \<open>broadcast\<close> returns without an exception;
  the sends that went through are exactly one send of the time-stamped message to
  each of the other subscribers, \<open>length subs - 1\<close> of them and \<open>bad\<close> not among them,
  in the order of the copy taken before the loop; the subscribers of the project
  afterwards are the former ones without \<open>bad\<close>; the other projects are untouched.
\<close>

theorem broadcast_one_failing_subscriber:
  assumes "connections m project_id = Some subs"
    and "distinct subs"
    and "bad \<in> set subs"
    and "fails bad"
    and "\<forall>ws\<in>set subs. ws \<noteq> bad \<longrightarrow> \<not> fails ws"
  shows "\<exists>m'. broadcast fails timestamp project_id msg m = (None, m') \<and>
           delivered m' = delivered m @ map (\<lambda>ws. (ws, stamped timestamp msg)) (removeAll bad subs) \<and>
           length (removeAll bad subs) = length subs - 1 \<and>
           bad \<notin> set (removeAll bad subs) \<and>
           subscribers m' project_id = set subs - {bad} \<and>
           (\<forall>q. q \<noteq> project_id \<longrightarrow> connections m' q = connections m q)"
proof -
  let ?m' = "send_all fails project_id (stamped timestamp msg) subs m"
  have b: "broadcast fails timestamp project_id msg m = (None, ?m')"
    using assms(1) by (simp add: broadcast_def)
  have f: "filter (\<lambda>ws. \<not> fails ws) subs = removeAll bad subs"
    using assms(4,5) by (rule filter_all_but_one)
  have d: "delivered ?m' = delivered m @ map (\<lambda>ws. (ws, stamped timestamp msg)) (removeAll bad subs)"
    by (simp add: send_all_delivered f)
  have l: "length (removeAll bad subs) = length subs - 1"
    using assms(2,3) by (simp add: distinct_remove1_removeAll [symmetric] length_remove1)
  have "{ws \<in> set subs. fails ws} = {bad}"
    using assms(3-5) by auto
  then have s: "subscribers ?m' project_id = set subs - {bad}"
    using assms(1) by (simp add: send_all_subscribers) (simp add: subscribers_def)
  have o: "\<forall>q. q \<noteq> project_id \<longrightarrow> connections ?m' q = connections m q"
    by (simp add: send_all_connections_other)
  show ?thesis using b d l s o by simp
qed

theorem broadcast_one_failing_subscriber_witness:
  "fst (broadcast (\<lambda>ws. ws = (2::nat)) ''12:00'' ''novel_1'' [''type'' \<mapsto> ''progress'']
          \<lparr>connections = [''novel_1'' \<mapsto> [1, 2, 3]], delivered = []\<rparr>) = None \<and>
   map fst (delivered (snd (broadcast (\<lambda>ws. ws = (2::nat)) ''12:00'' ''novel_1'' [''type'' \<mapsto> ''progress'']
          \<lparr>connections = [''novel_1'' \<mapsto> [1, 2, 3]], delivered = []\<rparr>))) = [1, 3] \<and>
   subscribers (snd (broadcast (\<lambda>ws. ws = (2::nat)) ''12:00'' ''novel_1'' [''type'' \<mapsto> ''progress'']
          \<lparr>connections = [''novel_1'' \<mapsto> [1, 2, 3]], delivered = []\<rparr>)) ''novel_1'' = {1, 3}"
proof -
  let ?m = "\<lparr>connections = [''novel_1'' \<mapsto> [1, 2, 3::nat]], delivered = []\<rparr>"
  let ?b = "broadcast (\<lambda>ws. ws = (2::nat)) ''12:00'' ''novel_1'' [''type'' \<mapsto> ''progress''] ?m"
  have 1: "connections ?m ''novel_1'' = Some [1, 2, 3]" by simp
  have 2: "distinct [1, 2, 3::nat]" by simp
  have 3: "(2::nat) \<in> set [1, 2, 3]" by simp
  have 4: "(\<lambda>ws. ws = (2::nat)) 2" by simp
  have 5: "\<forall>ws\<in>set [1, 2, 3::nat]. ws \<noteq> 2 \<longrightarrow> \<not> (\<lambda>ws. ws = (2::nat)) ws" by simp
  from broadcast_one_failing_subscriber [OF 1 2 3 4 5, of "''12:00''" "[''type'' \<mapsto> ''progress'']"]
  obtain m' where m': "?b = (None, m') \<and>
    delivered m' = delivered ?m @ map (\<lambda>ws. (ws, stamped ''12:00'' [''type'' \<mapsto> ''progress''])) (removeAll 2 [1, 2, 3]) \<and>
    length (removeAll (2::nat) [1, 2, 3]) = length [1, 2, 3::nat] - 1 \<and>
    2 \<notin> set (removeAll (2::nat) [1, 2, 3]) \<and>
    subscribers m' ''novel_1'' = set [1, 2, 3] - {2} \<and>
    (\<forall>q. q \<noteq> ''novel_1'' \<longrightarrow> connections m' q = connections ?m q)" ..
  have a: "fst ?b = None" using m' by simp
  have b: "map fst (delivered (snd ?b)) = [1, 3]" using m' by (simp add: comp_def)
  have "set [1, 2, 3::nat] - {2} = {1, 3}" by auto
  then have c: "subscribers (snd ?b) ''novel_1'' = {1, 3}" using m' by simp
  show ?thesis using a b c by blast
qed

text \<open>
  Claim C7. For a project id with no entry in the connection map, \<open>broadcast\<close> returns
  without an exception and leaves the manager as it was: nothing is added to the
  trace of sends and the connection map is unchanged.
\<close>

theorem broadcast_no_channel:
  "connections m project_id = None \<Longrightarrow> broadcast fails timestamp project_id msg m = (None, m)"
  by (simp add: broadcast_def)

theorem broadcast_no_channel_witness:
  "connections \<lparr>connections = [''novel_1'' \<mapsto> [1::nat]], delivered = []\<rparr> ''novel_2'' = None \<and>
   broadcast (\<lambda>ws. False) ''12:00'' ''novel_2'' [''type'' \<mapsto> ''progress'']
      \<lparr>connections = [''novel_1'' \<mapsto> [1::nat]], delivered = []\<rparr>
     = (None, \<lparr>connections = [''novel_1'' \<mapsto> [1::nat]], delivered = []\<rparr>)"
proof -
  have h: "connections \<lparr>connections = [''novel_1'' \<mapsto> [1::nat]], delivered = []\<rparr> ''novel_2'' = None"
    by simp
  show ?thesis
    using h broadcast_no_channel [OF h, of "\<lambda>ws. False" "''12:00''" "[''type'' \<mapsto> ''progress'']"]
    by simp
qed

section \<open>Properties of the project folder name\<close>

lemma set_py_strip: "set (py_strip P s) \<subseteq> set s"
proof -
  have "set (py_strip P s) \<subseteq> set (dropWhile P s)"
    unfolding py_strip_def using set_dropWhileD by fastforce
  also have "\<dots> \<subseteq> set s" using set_dropWhileD by fastforce
  finally show ?thesis .
qed

lemma last_dropWhile: "dropWhile P xs \<noteq> [] \<Longrightarrow> last (dropWhile P xs) = last xs"
  by (induction xs) (auto split: if_splits)

lemma py_strip_ends:
  assumes "py_strip P s \<noteq> []"
  shows "\<not> P (hd (py_strip P s)) \<and> \<not> P (last (py_strip P s))"
proof -
  let ?t = "dropWhile P s"
  let ?u = "dropWhile P (rev ?t)"
  have u: "?u \<noteq> []" using assms by (simp add: py_strip_def)
  have "?t = [] \<Longrightarrow> ?u = []" by (simp only: rev.simps dropWhile.simps)
  with u have t: "?t \<noteq> []" by blast
  have "\<not> P (hd ?u)" using u hd_dropWhile by blast
  then have l: "\<not> P (last (py_strip P s))" using u by (simp add: py_strip_def last_rev)
  have "last ?u = last (rev ?t)" using u by (rule last_dropWhile)
  also have "\<dots> = hd ?t" using t by (simp add: last_rev)
  finally have "hd (py_strip P s) = hd ?t" using u by (simp add: py_strip_def hd_rev)
  moreover have "\<not> P (hd ?t)" using t hd_dropWhile by blast
  ultimately show ?thesis using l by simp
qed

lemma cleaned_name_chars: "c \<in> set (cleaned_name db name) \<Longrightarrow> is_word db c \<or> c = 45"
  using set_py_strip [of "\<lambda>c. c = 45 \<or> c = 95"] by (fastforce simp: cleaned_name_def Let_def)

lemma cleaned_name_ends:
  "cleaned_name db name \<noteq> [] \<Longrightarrow>
     hd (cleaned_name db name) \<notin> {45, 95} \<and> last (cleaned_name db name) \<notin> {45, 95}"
  using py_strip_ends [of "\<lambda>c. c = 45 \<or> c = 95"] by (simp add: cleaned_name_def Let_def)

lemma ascii_untitled:
  "ascii ''untitled_project'' = [117, 110, 116, 105, 116, 108, 101, 100, 95, 112, 114, 111, 106, 101, 99, 116]"
  by (simp add: ascii_def)

lemma not_word_separators: "\<not> is_word db 32" "\<not> is_word db 47" "\<not> is_word db 92"
  by (simp_all add: is_word_def)

text \<open>
  Claim C10, as amended. For every input and every classification of the code points
  from 128 on, \<open>sanitize_folder_name\<close> returns a non-empty string of word characters and
  hyphens (code 45) only; it holds no space (32), no slash (47) and no backslash (92);
  it neither starts nor ends with a hyphen or an underscore (95). When the cleaning
  leaves nothing the result is \<open>untitled_project\<close>, and otherwise it is the cleaned
  name. The converse of the former fails: the cleaned name can itself be
  \<open>untitled_project\<close>, as the counterexample below shows.
\<close>

theorem sanitize_folder_name_shape:
  "sanitize_folder_name db name \<noteq> [] \<and>
   (\<forall>c \<in> set (sanitize_folder_name db name). is_word db c \<or> c = 45) \<and>
   32 \<notin> set (sanitize_folder_name db name) \<and>
   47 \<notin> set (sanitize_folder_name db name) \<and>
   92 \<notin> set (sanitize_folder_name db name) \<and>
   hd (sanitize_folder_name db name) \<notin> {45, 95} \<and>
   last (sanitize_folder_name db name) \<notin> {45, 95} \<and>
   (cleaned_name db name = [] \<longrightarrow> sanitize_folder_name db name = ascii ''untitled_project'') \<and>
   (cleaned_name db name \<noteq> [] \<longrightarrow> sanitize_folder_name db name = cleaned_name db name)"
proof (cases "cleaned_name db name = []")
  case True
  then have r: "sanitize_folder_name db name = ascii ''untitled_project''"
    by (simp add: sanitize_folder_name_def)
  show ?thesis unfolding r using True by (simp add: ascii_untitled is_word_def)
next
  case False
  then have r: "sanitize_folder_name db name = cleaned_name db name"
    by (simp add: sanitize_folder_name_def)
  have w: "\<forall>c \<in> set (cleaned_name db name). is_word db c \<or> c = 45"
    using cleaned_name_chars by blast
  have "32 \<notin> set (cleaned_name db name)" "47 \<notin> set (cleaned_name db name)"
    "92 \<notin> set (cleaned_name db name)"
    using w not_word_separators by fastforce+
  then show ?thesis unfolding r using False w cleaned_name_ends [OF False] by simp
qed

theorem sanitize_folder_name_shape_witness:
  "sanitize_folder_name \<lparr>uni_alnum = (\<lambda>c. False), uni_space = (\<lambda>c. False)\<rparr> (ascii '' -My Novel!/ '')
     = ascii ''My_Novel'' \<and>
   47 \<notin> set (sanitize_folder_name \<lparr>uni_alnum = (\<lambda>c. False), uni_space = (\<lambda>c. False)\<rparr> (ascii '' -My Novel!/ '')) \<and>
   hd (sanitize_folder_name \<lparr>uni_alnum = (\<lambda>c. False), uni_space = (\<lambda>c. False)\<rparr> (ascii '' -My Novel!/ '')) \<notin> {45, 95}"
proof -
  let ?db = "\<lparr>uni_alnum = (\<lambda>c. False), uni_space = (\<lambda>c. False)\<rparr>"
  have c: "cleaned_name ?db (ascii '' -My Novel!/ '') = ascii ''My_Novel''"
    by (simp add: cleaned_name_def py_strip_def is_space_def is_word_def ascii_def)
  then have n: "cleaned_name ?db (ascii '' -My Novel!/ '') \<noteq> []"
    by (simp add: ascii_def)
  show ?thesis
    using sanitize_folder_name_shape [of ?db "ascii '' -My Novel!/ ''"] c n
    by (simp add: ascii_def)
qed

theorem sanitize_folder_name_untitled_counterexample:
  "\<not> (sanitize_folder_name \<lparr>uni_alnum = (\<lambda>c. False), uni_space = (\<lambda>c. False)\<rparr> (ascii ''untitled_project'')
         = ascii ''untitled_project''
       \<longleftrightarrow> cleaned_name \<lparr>uni_alnum = (\<lambda>c. False), uni_space = (\<lambda>c. False)\<rparr> (ascii ''untitled_project'') = [])"
  by (simp add: sanitize_folder_name_def cleaned_name_def py_strip_def is_space_def is_word_def ascii_def)

section \<open>Properties of write_file\<close>

text \<open>
  Claim C9. With an active project folder, \<open>write_file\<close> in mode \<open>create\<close> on a target
  that exists returns a failure and changes neither the files nor the state. On a
  target that does not exist, when neither \<open>os.makedirs\<close> nor \<open>open\<close> raises, the file
  then holds exactly the given content and every other file is as before; the result
  is a success unless a state was passed and its snapshot could not be written.
\<close>

theorem write_file_create:
  assumes "get_active_project_folder w = Some project_folder"
    and "project_folder \<noteq> []"
  shows "(path_exists w (target_path project_folder filename) \<longrightarrow>
            write_file filename content ''create'' state w = (Inr failure, state, w)) \<and>
         (\<not> path_exists w (target_path project_folder filename) \<and>
          \<not> mkdir_fails w (dirname (target_path project_folder filename)) \<and>
          \<not> open_fails w (target_path project_folder filename) \<longrightarrow>
            (\<exists>r state' w'.
               write_file filename content ''create'' state w = (r, state', w') \<and>
               files w' (target_path project_folder filename) = Some content \<and>
               (\<forall>path. path \<noteq> target_path project_folder filename \<longrightarrow> files w' path = files w path) \<and>
               (state = None \<or> \<not> save_fails w \<longrightarrow> r = Inr succeeded)))"
  using assms
  by (cases state)
     (auto simp: write_file_def Let_def write_text_def save_state_def split: option.splits)

theorem write_file_create_witness:
  "write_file ''manuscript/chapter_01'' ''new text'' ''create'' None example_world
     = (Inr failure, None, example_world) \<and>
   files example_world ''output/my_novel/manuscript/chapter_01.md'' = Some ''# Chapter 1'' \<and>
   files (snd (snd (write_file ''notes'' ''hello'' ''create'' None example_world)))
      ''output/my_novel/notes.md'' = Some ''hello''"
proof -
  have 1: "get_active_project_folder example_world = Some ''output/my_novel''"
    by (simp add: get_active_project_folder_def example_world_def)
  have 2: "''output/my_novel'' \<noteq> []" by simp
  have t1: "target_path ''output/my_novel'' ''manuscript/chapter_01'' = ''output/my_novel/manuscript/chapter_01.md''"
    by (simp add: target_path_def with_md_def ends_with_def path_join_def)
  have t2: "target_path ''output/my_novel'' ''notes'' = ''output/my_novel/notes.md''"
    by (simp add: target_path_def with_md_def ends_with_def path_join_def)
  have e1: "path_exists example_world ''output/my_novel/manuscript/chapter_01.md''"
    by (simp add: path_exists_def example_world_def)
  have e2: "\<not> path_exists example_world ''output/my_novel/notes.md''"
    by (simp add: path_exists_def example_world_def)
  have f: "\<not> mkdir_fails example_world (dirname ''output/my_novel/notes.md'')"
      "\<not> open_fails example_world ''output/my_novel/notes.md''"
    by (simp_all add: example_world_def)
  have a: "write_file ''manuscript/chapter_01'' ''new text'' ''create'' None example_world
     = (Inr failure, None, example_world)"
    using write_file_create [OF 1 2, of "''manuscript/chapter_01''" "''new text''" None] e1
    by (simp add: t1)
  have b: "files (snd (snd (write_file ''notes'' ''hello'' ''create'' None example_world)))
      ''output/my_novel/notes.md'' = Some ''hello''"
    using write_file_create [OF 1 2, of "''notes''" "''hello''" None] e2 f
    by (auto simp: t2)
  have c: "files example_world ''output/my_novel/manuscript/chapter_01.md'' = Some ''# Chapter 1''"
    by (simp add: example_world_def)
  show ?thesis using a b c by blast
qed

section \<open>Properties of the revision guard\<close>

lemma request_revision_keeps:
  assumes "request_revision u notes (Some s) w = (r, state', w')"
  shows "\<exists>s'. state' = Some s' \<and>
           chapter_critique_iterations s' = chapter_critique_iterations s"
    and "get_active_project_folder w' = get_active_project_folder w"
  using assms
  by (auto simp: request_revision_def max_iterations_def Let_def update_phase_def save_state_def write_text_def
        get_active_project_folder_def
      split: option.splits sum.splits if_splits)

lemma request_revision_guard:
  assumes "get_active_project_folder w = Some pf" "pf \<noteq> []"
    and "request_revision u notes (Some s) w = (r, state', w')"
  shows "carries_auto_approve r \<longleftrightarrow> 2 \<le> iterations_get s u"
  using assms
  by (auto simp: request_revision_def max_iterations_def Let_def update_phase_def save_state_def
        carries_auto_approve_def auto_approved_def failure_def failure_of_def succeeded_to_def
      split: option.splits sum.splits if_splits)

lemma critique_chapter_counts:
  assumes "get_active_project_folder w = Some pf" "pf \<noteq> []"
    and "critique_chapter u critique_text (Some s) w = (r, state', w')"
  shows "\<exists>s'. state' = Some s' \<and>
           chapter_critique_iterations s' =
             (chapter_critique_iterations s)(u \<mapsto> (case chapter_critique_iterations s u of
                                                     None \<Rightarrow> 1 | Some v \<Rightarrow> v + 1))"
  using assms
  by (auto simp: critique_chapter_def Let_def save_state_def
      split: option.splits sum.splits if_splits)

lemma request_revisions_keep:
  assumes "get_active_project_folder w = Some pf" "pf \<noteq> []"
    and "execute_all (replicate N (RequestRevision u notes)) (Some s) w = (rs, state', w')"
  shows "length rs = N \<and>
         (\<exists>s'. state' = Some s' \<and> chapter_critique_iterations s' = chapter_critique_iterations s) \<and>
         (\<forall>r \<in> set rs. carries_auto_approve r \<longleftrightarrow> 2 \<le> iterations_get s u)"
  using assms
proof (induction N arbitrary: s w rs state' w')
  case 0
  then show ?case by auto
next
  case (Suc N)
  obtain r st1 w1 where first: "request_revision u notes (Some s) w = (r, st1, w1)"
    by (metis prod_cases3)
  from request_revision_keeps [OF first] obtain s1 where
    s1: "st1 = Some s1" "chapter_critique_iterations s1 = chapter_critique_iterations s"
    and pf1: "get_active_project_folder w1 = get_active_project_folder w"
    by blast
  obtain rs1 st2 w2 where rest:
    "execute_all (replicate N (RequestRevision u notes)) (Some s1) w1 = (rs1, st2, w2)"
    by (metis prod_cases3)
  have g: "carries_auto_approve r \<longleftrightarrow> 2 \<le> iterations_get s u"
    using request_revision_guard [OF Suc.prems(1,2) first] .
  have same: "iterations_get s1 u = iterations_get s u"
    using s1(2) by (simp add: iterations_get_def)
  have ih: "length rs1 = N \<and>
         (\<exists>s'. st2 = Some s' \<and> chapter_critique_iterations s' = chapter_critique_iterations s1) \<and>
         (\<forall>r \<in> set rs1. carries_auto_approve r \<longleftrightarrow> 2 \<le> iterations_get s1 u)"
    using Suc.IH [OF _ Suc.prems(2) rest] pf1 Suc.prems(1) by simp
  have "rs = r # rs1" "state' = st2"
    using Suc.prems(3) first rest s1(1) by simp_all
  then show ?case using ih g same s1(2) by auto
qed

lemma request_revision_at_bound:
  assumes "get_active_project_folder w = Some pf" "pf \<noteq> []"
    and "max_iterations \<le> iterations_get s u"
  shows "request_revision u notes (Some s) w = (Inr auto_approved, Some s, w)"
  using assms by (simp add: request_revision_def Let_def)

lemma request_revision_below_bound:
  assumes "get_active_project_folder w = Some pf" "pf \<noteq> []"
    and "iterations_get s u < max_iterations"
    and "allowed_edge (phase s) WRITING"
    and "\<forall>path. \<not> mkdir_fails w path \<and> \<not> open_fails w path"
    and "\<not> save_fails w"
  shows "\<exists>w'. request_revision u notes (Some s) w
           = (Inr (succeeded_to WRITING u (Some (iterations_get s u))), Some (s\<lparr>phase := WRITING\<rparr>), w')"
  using assms
  by (simp add: request_revision_def Let_def update_phase_def save_state_def write_text_def)

lemma request_revision_results:
  assumes "get_active_project_folder w = Some pf" "pf \<noteq> []"
    and "\<not> max_iterations \<le> iterations_get s u"
    and "request_revision u notes (Some s) w = (r, state', w')"
  shows "r = Inl OSError \<or> r = Inr (failure_of OSError) \<or> r = Inr (failure_of StateConflictError) \<or>
         r = Inr (failure_of PersistenceError) \<or>
         r = Inr (succeeded_to WRITING u (Some (iterations_get s u)))"
  using assms
  by (auto simp: request_revision_def Let_def update_phase_def save_state_def
      split: if_splits)


lemma request_revision_shape:
  assumes "get_active_project_folder w = Some pf" "pf \<noteq> []"
    and "request_revision u notes (Some s) w = (r, state', w')"
  shows "(carries_auto_approve r \<longleftrightarrow> max_iterations \<le> iterations_get s u) \<and>
         (carries_auto_approve r \<longrightarrow> r = Inr auto_approved) \<and>
         (\<forall>res t. r = Inr res \<and> transition res = Some t \<longrightarrow>
            success res \<and> \<not> auto_approve res \<and> to_phase t = WRITING \<and> data_chapter_number t = u)"
proof (cases "max_iterations \<le> iterations_get s u")
  case True
  then have "r = Inr auto_approved"
    using request_revision_at_bound [OF assms(1,2) True] assms(3) by simp
  then show ?thesis
    using True by (simp add: carries_auto_approve_def auto_approved_def)
next
  case False
  from request_revision_results [OF assms(1,2) False assms(3)]
  consider "r = Inl OSError" | "r = Inr (failure_of OSError)"
    | "r = Inr (failure_of StateConflictError)" | "r = Inr (failure_of PersistenceError)"
    | "r = Inr (succeeded_to WRITING u (Some (iterations_get s u)))"
    by blast
  then show ?thesis
  proof cases
    case 1
    then show ?thesis using False by (simp add: carries_auto_approve_def)
  next
    case 2
    then show ?thesis using False by (simp add: carries_auto_approve_def failure_of_def)
  next
    case 3
    then show ?thesis using False by (simp add: carries_auto_approve_def failure_of_def)
  next
    case 4
    then show ?thesis using False by (simp add: carries_auto_approve_def failure_of_def)
  next
    case 5
    then show ?thesis using False by (simp add: carries_auto_approve_def succeeded_to_def)
  qed
qed

text \<open>A property of every result of one call, kept by the state, holds of every result of a sequence.\<close>

lemma execute_all_replicate:
  assumes step: "\<And>s w r st' w'. I s w \<Longrightarrow> execute c (Some s) w = (r, st', w') \<Longrightarrow>
                   Q r \<and> (\<exists>s'. st' = Some s' \<and> I s' w')"
    and "I s w"
    and "execute_all (replicate N c) (Some s) w = (rs, state', w')"
  shows "\<forall>r \<in> set rs. Q r"
  using assms(2,3)
proof (induction N arbitrary: s w rs state' w')
  case 0
  then show ?case by auto
next
  case (Suc N)
  obtain r st1 w1 where first: "execute c (Some s) w = (r, st1, w1)"
    by (metis prod_cases3)
  from step [OF Suc.prems(1) first] obtain s1 where
    q: "Q r" and s1: "st1 = Some s1" and i1: "I s1 w1"
    by blast
  obtain rs1 st2 w2 where rest: "execute_all (replicate N c) (Some s1) w1 = (rs1, st2, w2)"
    by (metis prod_cases3)
  have ih: "\<forall>r \<in> set rs1. Q r" using Suc.IH [OF i1 rest] .
  have "rs = r # rs1" using Suc.prems(2) first rest s1 by simp
  then show ?case using q ih by simp
qed

lemma request_revisions_shape:
  assumes "get_active_project_folder w = Some pf" "pf \<noteq> []"
    and "execute_all (replicate N (RequestRevision u notes)) (Some s) w = (rs, state', w')"
  shows "\<forall>r \<in> set rs.
           (carries_auto_approve r \<longleftrightarrow> max_iterations \<le> iterations_get s u) \<and>
           (carries_auto_approve r \<longrightarrow> r = Inr auto_approved) \<and>
           (\<forall>res t. r = Inr res \<and> transition res = Some t \<longrightarrow>
              success res \<and> \<not> auto_approve res \<and> to_phase t = WRITING \<and> data_chapter_number t = u)"
proof (rule execute_all_replicate
    [where I = "\<lambda>s' w'. get_active_project_folder w' = Some pf \<and>
                         iterations_get s' u = iterations_get s u"
       and c = "RequestRevision u notes" and s = s and w = w and N = N and state' = state' and w' = w'])
  show "get_active_project_folder w = Some pf \<and> iterations_get s u = iterations_get s u"
    using assms(1) by simp
  show "execute_all (replicate N (RequestRevision u notes)) (Some s) w = (rs, state', w')"
    using assms(3) .
next
  fix s0 w0 r st' w1
  assume i: "get_active_project_folder w0 = Some pf \<and> iterations_get s0 u = iterations_get s u"
    and e: "execute (RequestRevision u notes) (Some s0) w0 = (r, st', w1)"
  then have e': "request_revision u notes (Some s0) w0 = (r, st', w1)" by simp
  have pf0: "get_active_project_folder w0 = Some pf" using i by simp
  note sh = request_revision_shape [OF pf0 assms(2) e']
  from request_revision_keeps [OF e'] obtain s' where
    s': "st' = Some s'" "chapter_critique_iterations s' = chapter_critique_iterations s0"
    and pf1: "get_active_project_folder w1 = get_active_project_folder w0"
    by blast
  have "iterations_get s' u = iterations_get s u"
    using s'(2) i by (simp add: iterations_get_def)
  then have k: "\<exists>s'. st' = Some s' \<and> (get_active_project_folder w1 = Some pf \<and>
                  iterations_get s' u = iterations_get s u)"
    using s'(1) pf1 pf0 by simp
  have eq: "iterations_get s0 u = iterations_get s u" using i by simp
  show "((carries_auto_approve r \<longleftrightarrow> max_iterations \<le> iterations_get s u) \<and>
         (carries_auto_approve r \<longrightarrow> r = Inr auto_approved) \<and>
         (\<forall>res t. r = Inr res \<and> transition res = Some t \<longrightarrow>
            success res \<and> \<not> auto_approve res \<and> to_phase t = WRITING \<and> data_chapter_number t = u)) \<and>
        (\<exists>s'. st' = Some s' \<and> (get_active_project_folder w1 = Some pf \<and>
                  iterations_get s' u = iterations_get s u))"
    using sh [unfolded eq] k by (rule conjI)
qed

lemma request_revisions_at_bound:
  assumes "get_active_project_folder w = Some pf" "pf \<noteq> []"
    and "max_iterations \<le> iterations_get s u"
  shows "execute_all (replicate N (RequestRevision u notes)) (Some s) w
           = (replicate N (Inr auto_approved), Some s, w)"
  by (induction N) (simp_all add: request_revision_at_bound [OF assms])


text \<open>
  Claim C1, as amended. With an active project folder, \<open>N\<close> calls of \<open>request_revision\<close>
  on a chapter give \<open>N\<close> results and leave every stored iteration count as it was: the
  handler only reads the count. Each of the calls carries \<open>auto_approve\<close> exactly when
  the stored count of the chapter has reached the handler's \<open>max_iterations\<close>, and
  then its result is the one of \<open>auto_approved\<close>: no success, no transition, and the
  state (its phase with it) and the world stay as they were. A result with a
  transition is a success without \<open>auto_approve\<close>, to the phase \<open>WRITING\<close> for the same
  chapter; below the bound, from a phase with an edge to \<open>WRITING\<close> and when no file
  operation and no snapshot write fails, the call returns that transition and sets the
  phase. The count is raised by \<open>critique_chapter\<close>: each call stores one more than
  before (1 for a chapter with no count), with no upper bound.
\<close>

theorem request_revision_reads_count:
  assumes "get_active_project_folder w = Some pf" and "pf \<noteq> []"
  shows "(\<forall>rs state' w'.
            execute_all (replicate N (RequestRevision u notes)) (Some s) w = (rs, state', w') \<longrightarrow>
              length rs = N \<and>
              (\<exists>s'. state' = Some s' \<and> iterations_get s' u = iterations_get s u \<and>
                    chapter_critique_iterations s' = chapter_critique_iterations s) \<and>
              (\<forall>r \<in> set rs.
                 (carries_auto_approve r \<longleftrightarrow> max_iterations \<le> iterations_get s u) \<and>
                 (carries_auto_approve r \<longrightarrow> r = Inr auto_approved) \<and>
                 (\<forall>res t. r = Inr res \<and> transition res = Some t \<longrightarrow>
                    success res \<and> \<not> auto_approve res \<and> to_phase t = WRITING \<and>
                    data_chapter_number t = u)) \<and>
              (max_iterations \<le> iterations_get s u \<longrightarrow> state' = Some s \<and> w' = w)) \<and>
         transition auto_approved = None \<and> \<not> success auto_approved \<and>
         (iterations_get s u < max_iterations \<and> allowed_edge (phase s) WRITING \<and>
          (\<forall>path. \<not> mkdir_fails w path \<and> \<not> open_fails w path) \<and> \<not> save_fails w \<longrightarrow>
            (\<exists>w'. request_revision u notes (Some s) w
               = (Inr (succeeded_to WRITING u (Some (iterations_get s u))),
                  Some (s\<lparr>phase := WRITING\<rparr>), w'))) \<and>
         (\<forall>r state' w'.
            critique_chapter u critique_text (Some s) w = (r, state', w') \<longrightarrow>
              (\<exists>s'. state' = Some s' \<and>
                    iterations_get s' u =
                      (case chapter_critique_iterations s u of None \<Rightarrow> 1 | Some v \<Rightarrow> v + 1)))"
proof (intro conjI allI impI)
  fix rs state' w'
  assume e: "execute_all (replicate N (RequestRevision u notes)) (Some s) w = (rs, state', w')"
  note k = request_revisions_keep [OF assms e]
  show "length rs = N" using k by simp
  show "\<exists>s'. state' = Some s' \<and> iterations_get s' u = iterations_get s u \<and>
          chapter_critique_iterations s' = chapter_critique_iterations s"
    using k by (auto simp: iterations_get_def)
  show "\<forall>r \<in> set rs.
          (carries_auto_approve r \<longleftrightarrow> max_iterations \<le> iterations_get s u) \<and>
          (carries_auto_approve r \<longrightarrow> r = Inr auto_approved) \<and>
          (\<forall>res t. r = Inr res \<and> transition res = Some t \<longrightarrow>
             success res \<and> \<not> auto_approve res \<and> to_phase t = WRITING \<and>
             data_chapter_number t = u)"
    using request_revisions_shape [OF assms e] .
  show "state' = Some s" "w' = w" if "max_iterations \<le> iterations_get s u"
    using request_revisions_at_bound [OF assms that] e by simp_all
next
  show "transition auto_approved = None" "\<not> success auto_approved"
    by (simp_all add: auto_approved_def)
next
  assume "iterations_get s u < max_iterations \<and> allowed_edge (phase s) WRITING \<and>
          (\<forall>path. \<not> mkdir_fails w path \<and> \<not> open_fails w path) \<and> \<not> save_fails w"
  then show "\<exists>w'. request_revision u notes (Some s) w
               = (Inr (succeeded_to WRITING u (Some (iterations_get s u))),
                  Some (s\<lparr>phase := WRITING\<rparr>), w')"
    using request_revision_below_bound [OF assms] by blast
next
  fix r state' w'
  assume c: "critique_chapter u critique_text (Some s) w = (r, state', w')"
  from critique_chapter_counts [OF assms c]
  show "\<exists>s'. state' = Some s' \<and>
          iterations_get s' u = (case chapter_critique_iterations s u of None \<Rightarrow> 1 | Some v \<Rightarrow> v + 1)"
    by (auto simp: iterations_get_def)
qed

lemma example_folder: "get_active_project_folder example_world = Some ''output/my_novel''"
  by (simp add: get_active_project_folder_def example_world_def)

lemma example_count: "iterations_get example_state n = 0"
  by (simp add: iterations_get_def example_state_def)

theorem request_revision_reads_count_witness:
  "length (fst (execute_all (replicate 3 (RequestRevision 1 ''tighten the opening''))
                  (Some example_state) example_world)) = 3 \<and>
   \<not> carries_auto_approve
        (fst (execute_all (replicate 3 (RequestRevision 1 ''tighten the opening''))
                (Some example_state) example_world) ! 2) \<and>
   fst (request_revision 1 ''tighten the opening'' (Some example_state) example_world)
     = Inr (succeeded_to WRITING 1 (Some 0))"
proof -
  let ?X = "execute_all (replicate 3 (RequestRevision 1 ''tighten the opening''))
              (Some example_state) example_world"
  have x: "?X = (fst ?X, fst (snd ?X), snd (snd ?X))" by simp
  have nz: "''output/my_novel'' \<noteq> []" by simp
  note t = request_revision_reads_count [OF example_folder nz]
  note t1 = t [THEN conjunct1, rule_format, OF x]
  have l: "length (fst ?X) = 3" using t1 [THEN conjunct1] .
  have g: "\<forall>r \<in> set (fst ?X).
             (carries_auto_approve r \<longleftrightarrow> max_iterations \<le> iterations_get example_state 1) \<and>
             (carries_auto_approve r \<longrightarrow> r = Inr auto_approved) \<and>
             (\<forall>res t. r = Inr res \<and> transition res = Some t \<longrightarrow>
                success res \<and> \<not> auto_approve res \<and> to_phase t = WRITING \<and>
                data_chapter_number t = 1)"
    using t1 [THEN conjunct2, THEN conjunct2, THEN conjunct1] .
  have "fst ?X ! 2 \<in> set (fst ?X)" using l by simp
  with g have "carries_auto_approve (fst ?X ! 2) \<longleftrightarrow> max_iterations \<le> iterations_get example_state 1"
    by blast
  then have a: "\<not> carries_auto_approve (fst ?X ! 2)"
    by (simp add: example_count max_iterations_def)
  have h1: "iterations_get example_state 1 < max_iterations"
    by (simp add: example_count max_iterations_def)
  have h2: "allowed_edge (phase example_state) WRITING" by (simp add: example_state_def)
  have h3: "\<forall>path. \<not> mkdir_fails example_world path \<and> \<not> open_fails example_world path"
    by (simp add: example_world_def)
  have h4: "\<not> save_fails example_world" by (simp add: example_world_def)
  have h: "iterations_get example_state 1 < max_iterations \<and> allowed_edge (phase example_state) WRITING \<and>
          (\<forall>path. \<not> mkdir_fails example_world path \<and> \<not> open_fails example_world path) \<and>
          \<not> save_fails example_world"
    using h1 h2 h3 h4 by blast
  from t [THEN conjunct2, THEN conjunct2, THEN conjunct2, THEN conjunct1, rule_format, OF h]
  obtain w' where
    "request_revision 1 ''tighten the opening'' (Some example_state) example_world
       = (Inr (succeeded_to WRITING 1 (Some (iterations_get example_state 1))),
          Some (example_state\<lparr>phase := WRITING\<rparr>), w')" ..
  then have b: "fst (request_revision 1 ''tighten the opening'' (Some example_state) example_world)
     = Inr (succeeded_to WRITING 1 (Some 0))"
    by (simp add: example_count)
  show ?thesis using l a b by blast
qed

theorem request_revision_count_counterexample:
  "iterations_get (the (fst (snd (execute_all (replicate 3 (RequestRevision 1 ''tighten the opening''))
                  (Some example_state) example_world)))) 1 \<noteq> min 3 2 \<and>
   \<not> carries_auto_approve
        (fst (execute_all (replicate 3 (RequestRevision 1 ''tighten the opening''))
                (Some example_state) example_world) ! 2)"
proof -
  let ?X = "execute_all (replicate 3 (RequestRevision 1 ''tighten the opening''))
              (Some example_state) example_world"
  have x: "?X = (fst ?X, fst (snd ?X), snd (snd ?X))" by simp
  have nz: "''output/my_novel'' \<noteq> []" by simp
  note k = request_revisions_keep [OF example_folder nz x]
  then obtain s' where s': "fst (snd ?X) = Some s'"
    "chapter_critique_iterations s' = chapter_critique_iterations example_state"
    by blast
  then have a: "iterations_get (the (fst (snd ?X))) 1 = 0"
    by (simp add: iterations_get_def example_state_def)
  have "fst ?X ! 2 \<in> set (fst ?X)" using k by simp
  then have b: "\<not> carries_auto_approve (fst ?X ! 2)" using k by (simp add: example_count)
  show ?thesis using a b by simp
qed

text \<open>
  Two rounds of critique and revision request on the first chapter of the example: the
  count is 2 after the second critique, and the second revision request is the one
  that carries \<open>auto_approve\<close>.
\<close>

lemma critique_rounds_example:
  "case execute_all [CritiqueChapter 1 ''slow start'', RequestRevision 1 ''tighten'',
                     CritiqueChapter 1 ''better'', RequestRevision 1 ''tighten more'']
          (Some example_state) example_world of
     (rs, state', w') \<Rightarrow>
        map carries_auto_approve rs = [False, False, False, True] \<and>
        map_option (\<lambda>s. iterations_get s 1) state' = Some 2"
  by (simp add: critique_chapter_def request_revision_def max_iterations_def Let_def example_state_def
        example_world_def get_active_project_folder_def save_state_def update_phase_def
        write_text_def iterations_get_def carries_auto_approve_def succeeded_def
        succeeded_to_def auto_approved_def failure_def failure_of_def)

text \<open>
  Claim C8. The bound of the guard in \<open>request_revision\<close> is the literal 2 of the
  handler, which takes no configuration: with \<open>max_write_critique_iterations = 5\<close>, a
  valid setting, a chapter whose count is 2 is auto-approved all the same.
\<close>

theorem request_revision_ignores_config:
  "valid_agent_config \<lparr>max_plan_critique_iterations = 2, max_write_critique_iterations = 5\<rparr> \<and>
   fst (request_revision 1 ''tighten the opening''
          (Some (example_state\<lparr>chapter_critique_iterations := [1 \<mapsto> 2]\<rparr>)) example_world)
     = Inr auto_approved"
  by (simp add: valid_agent_config_def request_revision_def max_iterations_def Let_def example_state_def
        example_world_def get_active_project_folder_def iterations_get_def)

section \<open>Properties of every handler\<close>

lemmas result_defs = reports_success_def failure_def failure_of_def succeeded_def succeeded_to_def
  auto_approved_def

lemma write_file_effect: "handler_effect s w (write_file filename content mode (Some s) w)"
  by (auto simp: handler_effect_def write_file_def Let_def save_state_def write_text_def
        append_text_def result_defs
      split: option.splits sum.splits if_splits)

lemma get_chapter_context_effect: "handler_effect s w (get_chapter_context n (Some s) w)"
  by (auto simp: handler_effect_def get_chapter_context_def Let_def save_state_def result_defs
      split: option.splits sum.splits if_splits)

lemma write_chapter_effect: "handler_effect s w (write_chapter n content (Some s) w)"
  by (auto simp: handler_effect_def write_chapter_def Let_def write_text_def result_defs
      split: option.splits sum.splits if_splits)

lemma finalize_chapter_effect: "handler_effect s w (finalize_chapter n notes (Some s) w)"
  by (auto simp: handler_effect_def finalize_chapter_def Let_def save_state_def update_phase_def
        result_defs
      split: option.splits sum.splits if_splits)

lemma critique_chapter_effect: "handler_effect s w (critique_chapter n critique_text (Some s) w)"
  by (auto simp: handler_effect_def critique_chapter_def Let_def save_state_def write_text_def
        result_defs
      split: option.splits sum.splits if_splits)

lemma request_revision_effect: "handler_effect s w (request_revision n notes (Some s) w)"
  by (auto simp: handler_effect_def request_revision_def max_iterations_def Let_def save_state_def write_text_def
        update_phase_def result_defs
      split: option.splits sum.splits if_splits)


lemma approve_chapter_effect: "handler_effect s w (approve_chapter n notes (Some s) w)"
  by (auto simp: handler_effect_def approve_chapter_def Let_def save_state_def write_text_def
        update_phase_def increment_chapter_def result_defs
      split: option.splits sum.splits if_splits)

lemma execute_effect: "handler_effect s w (execute call (Some s) w)"
  by (cases call)
     (simp_all add: write_file_effect get_chapter_context_effect write_chapter_effect
        finalize_chapter_effect critique_chapter_effect approve_chapter_effect
        request_revision_effect)


text \<open>
  Claim C4. When the approved chapters are among the completed ones, they still are
  after any call of a handler on the state, whatever the call returns.
\<close>

theorem approved_subset_completed:
  assumes "set (chapters_approved s) \<subseteq> set (chapters_completed s)"
    and "execute call (Some s) w = (r, state', w')"
  shows "\<exists>s'. state' = Some s' \<and> set (chapters_approved s') \<subseteq> set (chapters_completed s')"
  using execute_effect [of s w call] assms by (auto simp: handler_effect_def)

theorem approved_subset_completed_witness:
  "set (chapters_approved example_state) \<subseteq> set (chapters_completed example_state) \<and>
   (\<exists>s'. fst (snd (execute (ApproveChapter 1 ''reads well'') (Some example_state) example_world)) = Some s' \<and>
         chapters_approved s' = [1] \<and>
         set (chapters_approved s') \<subseteq> set (chapters_completed s'))"
proof -
  let ?X = "execute (ApproveChapter 1 ''reads well'') (Some example_state) example_world"
  have h: "set (chapters_approved example_state) \<subseteq> set (chapters_completed example_state)"
    by (simp add: example_state_def)
  have x: "?X = (fst ?X, fst (snd ?X), snd (snd ?X))" by simp
  from approved_subset_completed [OF h x] obtain s' where
    s': "fst (snd ?X) = Some s'" "set (chapters_approved s') \<subseteq> set (chapters_completed s')"
    by blast
  have "map_option chapters_approved (fst (snd ?X)) = Some [1]"
    by (simp add: approve_chapter_def Let_def example_state_def example_world_def
          get_active_project_folder_def save_state_def update_phase_def increment_chapter_def
          write_text_def)
  then have "chapters_approved s' = [1]" using s'(1) by simp
  then show ?thesis using h s' by blast
qed

section \<open>Phase changes\<close>

lemma update_phase_refuses:
  "\<not> allowed_edge (phase s) p \<Longrightarrow> update_phase s p = Inl StateConflictError"
  by (simp add: update_phase_def)

lemma update_phase_applies:
  "update_phase s p = Inr s' \<Longrightarrow> allowed_edge (phase s) p \<and> s' = s\<lparr>phase := p\<rparr>"
  by (auto simp: update_phase_def split: if_splits)

lemma finalize_chapter_refused:
  assumes "get_active_project_folder w = Some pf" "pf \<noteq> []"
    and "path_exists w (path_join (path_join pf ''manuscript'') (chapter_filename n))"
    and "\<not> allowed_edge (phase s) WRITE_CRITIQUE"
  shows "finalize_chapter n notes (Some s) w = (Inl StateConflictError, Some s, w)"
  using assms by (simp add: finalize_chapter_def Let_def update_phase_def)

lemma request_revision_refused:
  assumes "get_active_project_folder w = Some pf" "pf \<noteq> []"
    and "\<not> allowed_edge (phase s) WRITING"
    and "request_revision n notes (Some s) w = (r, state', w')"
  shows "state' = Some s \<and> \<not> reports_success r"
  using assms
  by (auto simp: request_revision_def max_iterations_def Let_def update_phase_def reports_success_def
        auto_approved_def failure_def failure_of_def
      split: if_splits)

lemma approve_chapter_refused:
  assumes "\<not> allowed_edge (phase s) WRITING" "\<not> allowed_edge (phase s) COMPLETE"
    and "approve_chapter n notes (Some s) w = (r, state', w')"
  shows "(\<exists>s'. state' = Some s' \<and> phase s' = phase s) \<and> \<not> reports_success r"
  using assms
  by (auto simp: approve_chapter_def Let_def update_phase_def increment_chapter_def
        reports_success_def failure_def failure_of_def
      split: option.splits if_splits)


lemma request_revision_conflict:
  assumes "get_active_project_folder w = Some pf" "pf \<noteq> []"
    and "\<not> allowed_edge (phase s) WRITING"
    and "iterations_get s n < 2"
    and "\<forall>path. \<not> mkdir_fails w path \<and> \<not> open_fails w path"
    and "request_revision n notes (Some s) w = (r, state', w')"
  shows "r = Inr (failure_of StateConflictError) \<and> state' = Some s"
  using assms
  by (auto simp: request_revision_def max_iterations_def Let_def update_phase_def split: if_splits)

text \<open>
  Claim C2. A phase change along an edge that is not in the table is refused with
  \<open>StateConflictError\<close> and an accepted one is along an edge of the table and sets the
  phase only; no edge leaves \<open>COMPLETE\<close>. For the handlers: whatever a call returns, the
  phase of the state afterwards is the phase before or the end of an allowed edge from
  it; \<open>finalize_chapter\<close> on a chapter that exists, in a phase with no edge to
  \<open>WRITE_CRITIQUE\<close>, raises \<open>StateConflictError\<close> and leaves state and world as they
  were; \<open>request_revision\<close> in a phase with no edge to \<open>WRITING\<close> never reports
  success and leaves the state as it was, and when it gets as far as the phase change
  its failure reports \<open>StateConflictError\<close>.
\<close>

theorem phase_change_validated:
  "(\<not> allowed_edge (phase s) p \<longrightarrow> update_phase s p = Inl StateConflictError) \<and>
   (\<forall>s'. update_phase s p = Inr s' \<longrightarrow> allowed_edge (phase s) p \<and> s' = s\<lparr>phase := p\<rparr>) \<and>
   \<not> allowed_edge COMPLETE p \<and>
   (\<forall>r state' w'. execute call (Some s) w = (r, state', w') \<longrightarrow>
       (\<exists>s'. state' = Some s' \<and> (phase s' = phase s \<or> allowed_edge (phase s) (phase s')))) \<and>
   (\<forall>pf. get_active_project_folder w = Some pf \<and> pf \<noteq> [] \<and>
         path_exists w (path_join (path_join pf ''manuscript'') (chapter_filename n)) \<and>
         \<not> allowed_edge (phase s) WRITE_CRITIQUE \<longrightarrow>
       finalize_chapter n notes (Some s) w = (Inl StateConflictError, Some s, w)) \<and>
   (\<forall>pf r state' w'. get_active_project_folder w = Some pf \<and> pf \<noteq> [] \<and>
         \<not> allowed_edge (phase s) WRITING \<and>
         request_revision n notes (Some s) w = (r, state', w') \<longrightarrow>
       state' = Some s \<and> \<not> reports_success r \<and>
       (iterations_get s n < 2 \<and> (\<forall>path. \<not> mkdir_fails w path \<and> \<not> open_fails w path) \<longrightarrow>
          r = Inr (failure_of StateConflictError)))"
proof (intro conjI allI impI)
  show "update_phase s p = Inl StateConflictError" if "\<not> allowed_edge (phase s) p"
    using that by (rule update_phase_refuses)
  show "allowed_edge (phase s) p" "s' = s\<lparr>phase := p\<rparr>" if "update_phase s p = Inr s'" for s'
    using update_phase_applies [OF that] by simp_all
  show "\<not> allowed_edge COMPLETE p" by simp
  show "\<exists>s'. state' = Some s' \<and> (phase s' = phase s \<or> allowed_edge (phase s) (phase s'))"
    if "execute call (Some s) w = (r, state', w')" for r state' w'
    using execute_effect [of s w call] that by (auto simp: handler_effect_def)
  show "finalize_chapter n notes (Some s) w = (Inl StateConflictError, Some s, w)"
    if "get_active_project_folder w = Some pf \<and> pf \<noteq> [] \<and>
         path_exists w (path_join (path_join pf ''manuscript'') (chapter_filename n)) \<and>
         \<not> allowed_edge (phase s) WRITE_CRITIQUE" for pf
    using that finalize_chapter_refused by blast
  fix pf r state' w'
  assume a: "get_active_project_folder w = Some pf \<and> pf \<noteq> [] \<and>
         \<not> allowed_edge (phase s) WRITING \<and>
         request_revision n notes (Some s) w = (r, state', w')"
  then show "state' = Some s" "\<not> reports_success r"
    using request_revision_refused by blast+
  show "r = Inr (failure_of StateConflictError)"
    if "iterations_get s n < 2 \<and> (\<forall>path. \<not> mkdir_fails w path \<and> \<not> open_fails w path)"
    using a that request_revision_conflict by blast
qed

theorem phase_change_validated_witness:
  "update_phase (example_state\<lparr>phase := COMPLETE\<rparr>) WRITING = Inl StateConflictError \<and>
   finalize_chapter 1 ''done'' (Some (example_state\<lparr>phase := PLANNING\<rparr>)) example_world
     = (Inl StateConflictError, Some (example_state\<lparr>phase := PLANNING\<rparr>), example_world) \<and>
   phase (example_state\<lparr>phase := PLANNING\<rparr>) = PLANNING"
proof -
  have a: "update_phase (example_state\<lparr>phase := COMPLETE\<rparr>) WRITING = Inl StateConflictError"
    using phase_change_validated [of "example_state\<lparr>phase := COMPLETE\<rparr>" WRITING]
    by simp
  have f: "get_active_project_folder example_world = Some ''output/my_novel'' \<and>
        ''output/my_novel'' \<noteq> [] \<and>
        path_exists example_world
          (path_join (path_join ''output/my_novel'' ''manuscript'') (chapter_filename 1)) \<and>
        \<not> allowed_edge (phase (example_state\<lparr>phase := PLANNING\<rparr>)) WRITE_CRITIQUE"
    by (simp add: example_world_def get_active_project_folder_def path_exists_def path_join_def
          chapter_filename_def fmt02_def str_nat.simps digit_char_def)
  have b: "finalize_chapter 1 ''done'' (Some (example_state\<lparr>phase := PLANNING\<rparr>)) example_world
     = (Inl StateConflictError, Some (example_state\<lparr>phase := PLANNING\<rparr>), example_world)"
    using phase_change_validated [of "example_state\<lparr>phase := PLANNING\<rparr>" WRITING _ example_world 1 "''done''"] f
    by blast
  show ?thesis using a b by simp
qed

section \<open>Persistence\<close>

lemma finalize_chapter_save_fails:
  assumes "get_active_project_folder w = Some pf" "pf \<noteq> []"
    and "path_exists w (path_join (path_join pf ''manuscript'') (chapter_filename n))"
    and "allowed_edge (phase s) WRITE_CRITIQUE"
    and "save_fails w"
  shows "finalize_chapter n notes (Some s) w
           = (Inl PersistenceError, Some (s\<lparr>phase := WRITE_CRITIQUE, current_chapter := n\<rparr>), w)"
  using assms by (simp add: finalize_chapter_def Let_def update_phase_def save_state_def)

lemma approve_chapter_save_fails:
  assumes "get_active_project_folder w = Some pf" "pf \<noteq> []"
    and "\<forall>path. \<not> mkdir_fails w path \<and> \<not> open_fails w path"
    and "phase s = WRITE_CRITIQUE"
    and "save_fails w"
    and "approve_chapter n notes (Some s) w = (r, state', w')"
  shows "r = Inr (failure_of PersistenceError) \<and> saved_state w' = saved_state w \<and>
         (\<exists>s'. state' = Some s' \<and> n \<in> set (chapters_approved s') \<and> phase s' \<noteq> phase s)"
  using assms
  by (auto simp: approve_chapter_def Let_def update_phase_def save_state_def write_text_def
        increment_chapter_def
      split: if_splits)

lemma write_file_same_state:
  "fst (snd (write_file filename content mode (Some s) (w\<lparr>save_fails := b\<rparr>)))
     = fst (snd (write_file filename content mode (Some s) w))"
  by (auto simp: write_file_def Let_def save_state_def write_text_def append_text_def
        get_active_project_folder_def path_exists_def
      split: option.splits sum.splits if_splits)

lemma get_chapter_context_same_state:
  "fst (snd (get_chapter_context n (Some s) (w\<lparr>save_fails := b\<rparr>)))
     = fst (snd (get_chapter_context n (Some s) w))"
  by (auto simp: get_chapter_context_def Let_def save_state_def get_active_project_folder_def
        path_exists_def
      split: option.splits sum.splits if_splits)

lemma write_chapter_same_state:
  "fst (snd (write_chapter n content (Some s) (w\<lparr>save_fails := b\<rparr>)))
     = fst (snd (write_chapter n content (Some s) w))"
  by (auto simp: write_chapter_def Let_def get_active_project_folder_def
      split: option.splits sum.splits if_splits)

lemma finalize_chapter_same_state:
  "fst (snd (finalize_chapter n notes (Some s) (w\<lparr>save_fails := b\<rparr>)))
     = fst (snd (finalize_chapter n notes (Some s) w))"
  by (auto simp: finalize_chapter_def Let_def save_state_def update_phase_def
        get_active_project_folder_def path_exists_def
      split: option.splits sum.splits if_splits)

lemma critique_chapter_same_state:
  "fst (snd (critique_chapter n critique_text (Some s) (w\<lparr>save_fails := b\<rparr>)))
     = fst (snd (critique_chapter n critique_text (Some s) w))"
  by (auto simp: critique_chapter_def Let_def save_state_def write_text_def
        get_active_project_folder_def
      split: option.splits sum.splits if_splits)

lemma request_revision_same_state:
  "fst (snd (request_revision n notes (Some s) (w\<lparr>save_fails := b\<rparr>)))
     = fst (snd (request_revision n notes (Some s) w))"
  by (auto simp: request_revision_def Let_def save_state_def write_text_def update_phase_def
        get_active_project_folder_def
      split: option.splits sum.splits if_splits)

lemma approve_chapter_same_state:
  "fst (snd (approve_chapter n notes (Some s) (w\<lparr>save_fails := b\<rparr>)))
     = fst (snd (approve_chapter n notes (Some s) w))"
  by (auto simp: approve_chapter_def Let_def save_state_def write_text_def update_phase_def
        increment_chapter_def get_active_project_folder_def
      split: option.splits sum.splits if_splits)

lemma execute_same_state:
  "fst (snd (execute call (Some s) (w\<lparr>save_fails := b\<rparr>))) = fst (snd (execute call (Some s) w))"
  by (cases call)
     (simp_all add: write_file_same_state get_chapter_context_same_state write_chapter_same_state
        finalize_chapter_same_state critique_chapter_same_state request_revision_same_state
        approve_chapter_same_state)


lemma write_file_failed_save:
  "fst (write_file filename content mode (Some s) (w\<lparr>save_fails := True\<rparr>))
     = fst (write_file filename content mode (Some s) (w\<lparr>save_fails := False\<rparr>)) \<or>
   reports_success (fst (write_file filename content mode (Some s) (w\<lparr>save_fails := False\<rparr>))) \<and>
   fst (write_file filename content mode (Some s) (w\<lparr>save_fails := True\<rparr>))
     = Inr (failure_of PersistenceError)"
  by (auto simp: write_file_def Let_def save_state_def write_text_def append_text_def
        get_active_project_folder_def path_exists_def reports_success_def succeeded_def
      split: option.splits sum.splits if_splits)

lemma get_chapter_context_failed_save:
  "fst (get_chapter_context n (Some s) (w\<lparr>save_fails := True\<rparr>))
     = fst (get_chapter_context n (Some s) (w\<lparr>save_fails := False\<rparr>)) \<or>
   reports_success (fst (get_chapter_context n (Some s) (w\<lparr>save_fails := False\<rparr>))) \<and>
   fst (get_chapter_context n (Some s) (w\<lparr>save_fails := True\<rparr>))
     = Inr (failure_of PersistenceError)"
  by (auto simp: get_chapter_context_def Let_def save_state_def get_active_project_folder_def
        path_exists_def reports_success_def succeeded_def
      split: option.splits sum.splits if_splits)

lemma write_chapter_failed_save:
  "fst (write_chapter n content (Some s) (w\<lparr>save_fails := True\<rparr>))
     = fst (write_chapter n content (Some s) (w\<lparr>save_fails := False\<rparr>))"
  by (auto simp: write_chapter_def Let_def get_active_project_folder_def
      split: option.splits sum.splits if_splits)

lemma finalize_chapter_failed_save:
  "fst (finalize_chapter n notes (Some s) (w\<lparr>save_fails := True\<rparr>))
     = fst (finalize_chapter n notes (Some s) (w\<lparr>save_fails := False\<rparr>)) \<or>
   reports_success (fst (finalize_chapter n notes (Some s) (w\<lparr>save_fails := False\<rparr>))) \<and>
   fst (finalize_chapter n notes (Some s) (w\<lparr>save_fails := True\<rparr>)) = Inl PersistenceError"
  by (auto simp: finalize_chapter_def Let_def save_state_def update_phase_def
        get_active_project_folder_def path_exists_def reports_success_def succeeded_to_def
      split: option.splits sum.splits if_splits)

lemma critique_chapter_failed_save:
  "fst (critique_chapter n critique_text (Some s) (w\<lparr>save_fails := True\<rparr>))
     = fst (critique_chapter n critique_text (Some s) (w\<lparr>save_fails := False\<rparr>)) \<or>
   reports_success (fst (critique_chapter n critique_text (Some s) (w\<lparr>save_fails := False\<rparr>))) \<and>
   fst (critique_chapter n critique_text (Some s) (w\<lparr>save_fails := True\<rparr>))
     = Inr (failure_of PersistenceError)"
  by (auto simp: critique_chapter_def Let_def save_state_def write_text_def
        get_active_project_folder_def reports_success_def succeeded_def
      split: option.splits sum.splits if_splits)

lemma request_revision_failed_save:
  "fst (request_revision n notes (Some s) (w\<lparr>save_fails := True\<rparr>))
     = fst (request_revision n notes (Some s) (w\<lparr>save_fails := False\<rparr>)) \<or>
   reports_success (fst (request_revision n notes (Some s) (w\<lparr>save_fails := False\<rparr>))) \<and>
   fst (request_revision n notes (Some s) (w\<lparr>save_fails := True\<rparr>))
     = Inr (failure_of PersistenceError)"
  by (auto simp: request_revision_def Let_def save_state_def write_text_def update_phase_def
        get_active_project_folder_def reports_success_def succeeded_to_def
      split: option.splits sum.splits if_splits)

lemma approve_chapter_failed_save:
  "fst (approve_chapter n notes (Some s) (w\<lparr>save_fails := True\<rparr>))
     = fst (approve_chapter n notes (Some s) (w\<lparr>save_fails := False\<rparr>)) \<or>
   reports_success (fst (approve_chapter n notes (Some s) (w\<lparr>save_fails := False\<rparr>))) \<and>
   fst (approve_chapter n notes (Some s) (w\<lparr>save_fails := True\<rparr>))
     = Inr (failure_of PersistenceError)"
  by (auto simp: approve_chapter_def Let_def save_state_def write_text_def update_phase_def
        increment_chapter_def get_active_project_folder_def reports_success_def succeeded_to_def
      split: option.splits sum.splits if_splits)

lemma execute_failed_save:
  "fst (execute call (Some s) (w\<lparr>save_fails := True\<rparr>))
     = fst (execute call (Some s) (w\<lparr>save_fails := False\<rparr>)) \<or>
   reports_success (fst (execute call (Some s) (w\<lparr>save_fails := False\<rparr>))) \<and>
   fst (execute call (Some s) (w\<lparr>save_fails := True\<rparr>))
     = (case call of FinalizeChapter k m \<Rightarrow> Inl PersistenceError
        | _ \<Rightarrow> Inr (failure_of PersistenceError))"
proof (cases call)
  case (WriteFile x1 x2 x3)
  then show ?thesis using write_file_failed_save [of x1 x2 x3 s w] by simp
next
  case (GetChapterContext x)
  then show ?thesis using get_chapter_context_failed_save [of x s w] by simp
next
  case (WriteChapter x1 x2)
  then show ?thesis using write_chapter_failed_save [of x1 x2 s w] by simp
next
  case (FinalizeChapter x1 x2)
  then show ?thesis using finalize_chapter_failed_save [of x1 x2 s w] by simp
next
  case (CritiqueChapter x1 x2)
  then show ?thesis using critique_chapter_failed_save [of x1 x2 s w] by simp
next
  case (ApproveChapter x1 x2)
  then show ?thesis using approve_chapter_failed_save [of x1 x2 s w] by simp
next
  case (RequestRevision x1 x2)
  then show ?thesis using request_revision_failed_save [of x1 x2 s w] by simp
qed

lemma execute_failed_save_snapshot:
  "saved_state (snd (snd (execute call (Some s) (w\<lparr>save_fails := True\<rparr>)))) = saved_state w"
proof -
  let ?w = "w\<lparr>save_fails := True\<rparr>"
  obtain r st' w' where e: "execute call (Some s) ?w = (r, st', w')"
    by (metis prod_cases3)
  have "handler_effect s ?w (r, st', w')" using execute_effect [of s ?w call] e by simp
  then have "saved_state w' = saved_state ?w" by (auto simp: handler_effect_def)
  then show ?thesis using e by simp
qed


text \<open>
  Claim C5, as amended. For every call of a handler on a state: the state after the
  call is the same whether the snapshot write fails or not, so nothing is rolled back
  and the mutation is kept; when the write fails the snapshot stays as it was, and the
  result is the one of the call with a working write unless that one is a success
  that wrote the snapshot, in which case \<open>finalize_chapter\<close> raises
  \<open>PersistenceError\<close> and every other handler returns a failure reporting it; a call
  that changed the state never reports success after a failed write. The snapshot
  after a call is the snapshot before or the state after the call (it is written
  whole, from the mutated state), and when the write does not fail a reported success
  with a changed state has the snapshot equal to the state. In particular, after a
  failed write \<open>finalize_chapter\<close> leaves the new phase and chapter in the state, and
  \<open>approve_chapter\<close> leaves the chapter approved and the phase changed.
\<close>

theorem persistence_failure_keeps_mutation:
  "(\<forall>b. fst (snd (execute call (Some s) (w\<lparr>save_fails := b\<rparr>)))
           = fst (snd (execute call (Some s) w))) \<and>
   saved_state (snd (snd (execute call (Some s) (w\<lparr>save_fails := True\<rparr>)))) = saved_state w \<and>
   (fst (execute call (Some s) (w\<lparr>save_fails := True\<rparr>))
      = fst (execute call (Some s) (w\<lparr>save_fails := False\<rparr>)) \<or>
    reports_success (fst (execute call (Some s) (w\<lparr>save_fails := False\<rparr>))) \<and>
    fst (execute call (Some s) (w\<lparr>save_fails := True\<rparr>))
      = (case call of FinalizeChapter k m \<Rightarrow> Inl PersistenceError
         | _ \<Rightarrow> Inr (failure_of PersistenceError))) \<and>
   (\<forall>r state' w'. execute call (Some s) w = (r, state', w') \<longrightarrow>
      (\<exists>s'. state' = Some s' \<and>
         (saved_state w' = saved_state w \<or> saved_state w' = Some s') \<and>
         (save_fails w \<longrightarrow> saved_state w' = saved_state w \<and> (s' \<noteq> s \<longrightarrow> \<not> reports_success r)) \<and>
         (\<not> save_fails w \<and> reports_success r \<and> s' \<noteq> s \<longrightarrow> saved_state w' = Some s'))) \<and>
   (\<forall>pf. get_active_project_folder w = Some pf \<and> pf \<noteq> [] \<and>
         path_exists w (path_join (path_join pf ''manuscript'') (chapter_filename n)) \<and>
         allowed_edge (phase s) WRITE_CRITIQUE \<and> save_fails w \<longrightarrow>
       finalize_chapter n notes (Some s) w
         = (Inl PersistenceError, Some (s\<lparr>phase := WRITE_CRITIQUE, current_chapter := n\<rparr>), w)) \<and>
   (\<forall>pf r state' w'. get_active_project_folder w = Some pf \<and> pf \<noteq> [] \<and>
         (\<forall>path. \<not> mkdir_fails w path \<and> \<not> open_fails w path) \<and>
         phase s = WRITE_CRITIQUE \<and> save_fails w \<and>
         approve_chapter n notes (Some s) w = (r, state', w') \<longrightarrow>
       r = Inr (failure_of PersistenceError) \<and> saved_state w' = saved_state w \<and>
       (\<exists>s'. state' = Some s' \<and> n \<in> set (chapters_approved s') \<and> phase s' \<noteq> phase s))"
proof (intro conjI allI impI)
  show "fst (snd (execute call (Some s) (w\<lparr>save_fails := b\<rparr>))) = fst (snd (execute call (Some s) w))"
    for b by (rule execute_same_state)
  show "saved_state (snd (snd (execute call (Some s) (w\<lparr>save_fails := True\<rparr>)))) = saved_state w"
    by (rule execute_failed_save_snapshot)
  show "fst (execute call (Some s) (w\<lparr>save_fails := True\<rparr>))
      = fst (execute call (Some s) (w\<lparr>save_fails := False\<rparr>)) \<or>
    reports_success (fst (execute call (Some s) (w\<lparr>save_fails := False\<rparr>))) \<and>
    fst (execute call (Some s) (w\<lparr>save_fails := True\<rparr>))
      = (case call of FinalizeChapter k m \<Rightarrow> Inl PersistenceError
         | _ \<Rightarrow> Inr (failure_of PersistenceError))"
    by (rule execute_failed_save)
  show "\<exists>s'. state' = Some s' \<and>
         (saved_state w' = saved_state w \<or> saved_state w' = Some s') \<and>
         (save_fails w \<longrightarrow> saved_state w' = saved_state w \<and> (s' \<noteq> s \<longrightarrow> \<not> reports_success r)) \<and>
         (\<not> save_fails w \<and> reports_success r \<and> s' \<noteq> s \<longrightarrow> saved_state w' = Some s')"
    if "execute call (Some s) w = (r, state', w')" for r state' w'
    using execute_effect [of s w call] that by (auto simp: handler_effect_def)
  show "finalize_chapter n notes (Some s) w
         = (Inl PersistenceError, Some (s\<lparr>phase := WRITE_CRITIQUE, current_chapter := n\<rparr>), w)"
    if "get_active_project_folder w = Some pf \<and> pf \<noteq> [] \<and>
         path_exists w (path_join (path_join pf ''manuscript'') (chapter_filename n)) \<and>
         allowed_edge (phase s) WRITE_CRITIQUE \<and> save_fails w" for pf
    using that finalize_chapter_save_fails by blast
  fix pf r state' w'
  assume "get_active_project_folder w = Some pf \<and> pf \<noteq> [] \<and>
         (\<forall>path. \<not> mkdir_fails w path \<and> \<not> open_fails w path) \<and>
         phase s = WRITE_CRITIQUE \<and> save_fails w \<and>
         approve_chapter n notes (Some s) w = (r, state', w')"
  then have k: "r = Inr (failure_of PersistenceError) \<and> saved_state w' = saved_state w \<and>
         (\<exists>s'. state' = Some s' \<and> n \<in> set (chapters_approved s') \<and> phase s' \<noteq> phase s)"
    using approve_chapter_save_fails by blast
  show "r = Inr (failure_of PersistenceError)" "saved_state w' = saved_state w"
    "\<exists>s'. state' = Some s' \<and> n \<in> set (chapters_approved s') \<and> phase s' \<noteq> phase s"
    using k by simp_all
qed

lemma approve_with_failing_save:
  "approve_chapter 1 ''reads well'' (Some example_state) (example_world\<lparr>save_fails := True\<rparr>)
     = (Inr (failure_of PersistenceError),
        Some (example_state\<lparr>chapters_completed := [1], chapters_approved := [1],
                           current_chapter := 2, phase := WRITING\<rparr>),
        write_text (example_world\<lparr>save_fails := True\<rparr>)
          ''output/my_novel/critiques/chapter_01_approval.md''
          (''# Chapter 1 Approval\<newline>\<newline>**Date:** 2025-01-01 12:00:00\<newline>\<newline>''
           @ ''**Status:** APPROVED\<newline>\<newline>---\<newline>\<newline>reads well\<newline>''))"
  by (simp add: approve_chapter_def Let_def example_state_def example_world_def
        get_active_project_folder_def save_state_def update_phase_def increment_chapter_def
        write_text_def path_join_def fmt02_def str_int_def str_nat.simps digit_char_def)


lemma approve_with_working_save:
  "fst (snd (approve_chapter 1 ''reads well'' (Some example_state) example_world))
     = Some (example_state\<lparr>chapters_completed := [1], chapters_approved := [1],
                          current_chapter := 2, phase := WRITING\<rparr>)"
  by (simp add: approve_chapter_def Let_def example_state_def example_world_def
        get_active_project_folder_def save_state_def update_phase_def increment_chapter_def
        write_text_def)

theorem persistence_failure_keeps_mutation_witness:
  "fst (snd (execute (ApproveChapter 1 ''reads well'') (Some example_state)
               (example_world\<lparr>save_fails := True\<rparr>)))
     = Some (example_state\<lparr>chapters_completed := [1], chapters_approved := [1],
                          current_chapter := 2, phase := WRITING\<rparr>) \<and>
   saved_state (snd (snd (execute (ApproveChapter 1 ''reads well'') (Some example_state)
                            (example_world\<lparr>save_fails := True\<rparr>))))
     = Some example_state"
proof -
  note t = persistence_failure_keeps_mutation
             [of "ApproveChapter 1 ''reads well''" example_state example_world]
  have a: "fst (snd (execute (ApproveChapter 1 ''reads well'') (Some example_state)
               (example_world\<lparr>save_fails := True\<rparr>)))
     = fst (snd (execute (ApproveChapter 1 ''reads well'') (Some example_state) example_world))"
    using t [THEN conjunct1, rule_format] .
  have b: "saved_state (snd (snd (execute (ApproveChapter 1 ''reads well'') (Some example_state)
                            (example_world\<lparr>save_fails := True\<rparr>))))
     = saved_state example_world"
    using t [THEN conjunct2, THEN conjunct1] .
  have c: "saved_state example_world = Some example_state" by (simp add: example_world_def)
  show ?thesis using a b c approve_with_working_save by simp
qed

theorem persistence_rollback_counterexample:
  "fst (approve_chapter 1 ''reads well'' (Some example_state) (example_world\<lparr>save_fails := True\<rparr>))
     = Inr (failure_of PersistenceError) \<and>
   saved_state (example_world\<lparr>save_fails := True\<rparr>) = Some example_state \<and>
   fst (snd (approve_chapter 1 ''reads well'' (Some example_state) (example_world\<lparr>save_fails := True\<rparr>)))
     \<noteq> saved_state (snd (snd (approve_chapter 1 ''reads well'' (Some example_state)
                                 (example_world\<lparr>save_fails := True\<rparr>)))) \<and>
   fst (snd (approve_chapter 1 ''reads well'' (Some example_state) (example_world\<lparr>save_fails := True\<rparr>)))
     \<noteq> Some example_state"
proof -
  have "phase (example_state\<lparr>chapters_completed := [1], chapters_approved := [1],
                           current_chapter := 2, phase := WRITING\<rparr>) \<noteq> phase example_state"
    by (simp add: example_state_def)
  then have "example_state\<lparr>chapters_completed := [1], chapters_approved := [1],
                           current_chapter := 2, phase := WRITING\<rparr> \<noteq> example_state"
    by (metis (no_types))
  then show ?thesis
    by (simp add: approve_with_failing_save write_text_def) (simp add: example_world_def)
qed

section \<open>Approval of a chapter\<close>





end
